theory Spec2Isabelle
  imports Complex_Main
begin

section \<open>JavaScript numbers, idealised\<close>

text \<open>
  The simulation engine of \<^verbatim>\<open>src/App.js\<close> computes with JavaScript numbers. They are
  modelled as exact reals, plus the one special value the program can produce from real
  inputs: \<open>NaN\<close>, which arises when \<^verbatim>\<open>undefined\<close> (a missing field) enters arithmetic.
  Rounding error, overflow to \<^verbatim>\<open>Infinity\<close> and underflow of IEEE-754 doubles are not
  modelled. Every arithmetic operation propagates \<open>NaN\<close>, every comparison with \<open>NaN\<close>
  is false, as in the language.
\<close>

datatype jsnum = Num real | NaN

instantiation jsnum :: "{plus, minus, times, uminus, inverse}"
begin

fun plus_jsnum :: "jsnum \<Rightarrow> jsnum \<Rightarrow> jsnum" where
  "plus_jsnum (Num a) (Num b) = Num (a + b)"
| "plus_jsnum _ _ = NaN"

fun minus_jsnum :: "jsnum \<Rightarrow> jsnum \<Rightarrow> jsnum" where
  "minus_jsnum (Num a) (Num b) = Num (a - b)"
| "minus_jsnum _ _ = NaN"

fun times_jsnum :: "jsnum \<Rightarrow> jsnum \<Rightarrow> jsnum" where
  "times_jsnum (Num a) (Num b) = Num (a * b)"
| "times_jsnum _ _ = NaN"

fun uminus_jsnum :: "jsnum \<Rightarrow> jsnum" where
  "uminus_jsnum (Num a) = Num (- a)"
| "uminus_jsnum NaN = NaN"

text \<open>
  Division by zero gives \<^verbatim>\<open>Infinity\<close> or \<^verbatim>\<open>NaN\<close> in JavaScript and \<open>0\<close> in HOL. The
  program only divides by \<open>3\<close>, by \<open>100\<close> and by \<open>1 + exp x\<close>; the model sends a zero
  divisor to \<open>NaN\<close>, so that nothing rests on HOL's convention.
\<close>

fun divide_jsnum :: "jsnum \<Rightarrow> jsnum \<Rightarrow> jsnum" where
  "divide_jsnum (Num a) (Num b) = (if b = 0 then NaN else Num (a / b))"
| "divide_jsnum _ _ = NaN"

fun inverse_jsnum :: "jsnum \<Rightarrow> jsnum" where
  "inverse_jsnum (Num a) = (if a = 0 then NaN else Num (1 / a))"
| "inverse_jsnum NaN = NaN"

instance ..

end

text \<open>The comparisons \<^verbatim>\<open><\<close>, \<^verbatim>\<open><=\<close> and \<^verbatim>\<open>===\<close> on numbers.\<close>

fun num_lt :: "jsnum \<Rightarrow> jsnum \<Rightarrow> bool" where
  "num_lt (Num a) (Num b) = (a < b)"
| "num_lt _ _ = False"

fun num_le :: "jsnum \<Rightarrow> jsnum \<Rightarrow> bool" where
  "num_le (Num a) (Num b) = (a \<le> b)"
| "num_le _ _ = False"

fun strict_eq :: "jsnum \<Rightarrow> jsnum \<Rightarrow> bool" where
  "strict_eq (Num a) (Num b) = (a = b)"
| "strict_eq _ _ = False"

fun Math_exp :: "jsnum \<Rightarrow> jsnum" where
  "Math_exp (Num a) = Num (exp a)"
| "Math_exp NaN = NaN"

fun Math_abs :: "jsnum \<Rightarrow> jsnum" where
  "Math_abs (Num a) = Num \<bar>a\<bar>"
| "Math_abs NaN = NaN"

text \<open>\<^verbatim>\<open>Math.pow\<close> is only called with the exponent \<open>2\<close>.\<close>

fun Math_pow :: "jsnum \<Rightarrow> nat \<Rightarrow> jsnum" where
  "Math_pow (Num a) n = Num (a ^ n)"
| "Math_pow NaN n = NaN"

fun Math_min :: "jsnum \<Rightarrow> jsnum \<Rightarrow> jsnum" where
  "Math_min (Num a) (Num b) = Num (min a b)"
| "Math_min _ _ = NaN"

fun Math_max :: "jsnum \<Rightarrow> jsnum \<Rightarrow> jsnum" where
  "Math_max (Num a) (Num b) = Num (max a b)"
| "Math_max _ _ = NaN"

text \<open>\<^verbatim>\<open>Math.round\<close> rounds to the nearest integer, a tie towards \<open>+\<infinity>\<close>.\<close>

fun Math_round :: "jsnum \<Rightarrow> jsnum" where
  "Math_round (Num a) = Num (of_int \<lfloor>a + 1/2\<rfloor>)"
| "Math_round NaN = NaN"

text \<open>
  \<^verbatim>\<open>+x.toFixed(d)\<close>: the decimal with \<open>d\<close> fraction digits nearest to \<open>x\<close>, a tie away
  from zero (the sign is split off first), read back as a number.
\<close>

definition toFixed_real :: "nat \<Rightarrow> real \<Rightarrow> real" where
  "toFixed_real d x =
     (if x < 0 then - (of_int \<lfloor>- x * 10 ^ d + 1/2\<rfloor> / 10 ^ d)
      else of_int \<lfloor>x * 10 ^ d + 1/2\<rfloor> / 10 ^ d)"

fun toFixed :: "nat \<Rightarrow> jsnum \<Rightarrow> jsnum" where
  "toFixed d (Num a) = Num (toFixed_real d a)"
| "toFixed d NaN = NaN"

section \<open>Registries\<close>

record material =
  base :: real
  timeK :: real
  phOpt :: real
  phSens :: real
  concDecay :: real
  synergy :: real

record pollutant =
  phDir :: real
  optMul :: real
  concBase :: real

text \<open>
  \<^verbatim>\<open>MODEL_PARAMS\<close> and \<^verbatim>\<open>POLLUTANT_MOD\<close> are object literals, read with
  \<^verbatim>\<open>MODEL_PARAMS[adsorbent]\<close>. Such a read finds the object's own properties first and
  then those it inherits from \<^verbatim>\<open>Object.prototype\<close>; only a key found in neither gives
  \<^verbatim>\<open>undefined\<close>.
\<close>

definition MODEL_PARAMS_own :: "(string \<times> material) list" where
  "MODEL_PARAMS_own =
    [(''MNCJG'', \<lparr>base = 92, timeK = 0.18, phOpt = 6.0, phSens = 3.5, concDecay = 0.008, synergy = 5\<rparr>),
     (''MNC'',   \<lparr>base = 78, timeK = 0.14, phOpt = 6.0, phSens = 4.0, concDecay = 0.012, synergy = 0\<rparr>),
     (''NC'',    \<lparr>base = 55, timeK = 0.10, phOpt = 5.5, phSens = 5.0, concDecay = 0.018, synergy = 0\<rparr>),
     (''NCJG'',  \<lparr>base = 72, timeK = 0.15, phOpt = 6.0, phSens = 3.8, concDecay = 0.010, synergy = 3\<rparr>),
     (''MWM'',   \<lparr>base = 65, timeK = 0.12, phOpt = 5.5, phSens = 4.5, concDecay = 0.015, synergy = 0\<rparr>)]"

definition POLLUTANT_MOD_own :: "(string \<times> pollutant) list" where
  "POLLUTANT_MOD_own =
    [(''Cd(II)'',  \<lparr>phDir = 1,  optMul = 1.05, concBase = 5\<rparr>),
     (''Pb(II)'',  \<lparr>phDir = 1,  optMul = 1.08, concBase = 5\<rparr>),
     (''As(III)'', \<lparr>phDir = -1, optMul = 0.92, concBase = 5\<rparr>),
     (''Nap'',     \<lparr>phDir = 0,  optMul = 0.88, concBase = 50\<rparr>)]"

text \<open>
  The property names of \<^verbatim>\<open>Object.prototype\<close> (ECMAScript, with its Annex B for
  browsers). Each of them holds a function or an object, so each is truthy, and none of
  them has any of the fields of a material or a pollutant.
\<close>

definition Object_prototype :: "string list" where
  "Object_prototype =
    [''constructor'', ''hasOwnProperty'', ''isPrototypeOf'', ''propertyIsEnumerable'',
     ''toLocaleString'', ''toString'', ''valueOf'', ''__proto__'',
     ''__defineGetter__'', ''__defineSetter__'', ''__lookupGetter__'', ''__lookupSetter__'']"

text \<open>
  What a property read returns when it is not \<^verbatim>\<open>undefined\<close>: a registered entry, or a
  member inherited from \<^verbatim>\<open>Object.prototype\<close>. \<open>None\<close> is \<^verbatim>\<open>undefined\<close>.
\<close>

datatype 'a jsobj = Own 'a | Inherited

definition property :: "(string \<times> 'a) list \<Rightarrow> string \<Rightarrow> 'a jsobj option" where
  "property obj k =
     (case map_of obj k of
        Some v \<Rightarrow> Some (Own v)
      | None \<Rightarrow> if k \<in> set Object_prototype then Some Inherited else None)"

definition MODEL_PARAMS :: "string \<Rightarrow> material jsobj option" where
  "MODEL_PARAMS = property MODEL_PARAMS_own"

definition POLLUTANT_MOD :: "string \<Rightarrow> pollutant jsobj option" where
  "POLLUTANT_MOD = property POLLUTANT_MOD_own"

text \<open>
  Reading a numeric field: a field that is missing reads as \<^verbatim>\<open>undefined\<close>, which is
  \<open>NaN\<close> in arithmetic and unequal to every number under \<^verbatim>\<open>===\<close>.
\<close>

fun fld :: "('a \<Rightarrow> real) \<Rightarrow> 'a jsobj \<Rightarrow> jsnum" where
  "fld f (Own r) = Num (f r)"
| "fld f Inherited = NaN"

section \<open>The response model: \<^verbatim>\<open>predictRemoval\<close>\<close>

record prediction =
  mean :: jsnum
  std :: jsnum

definition kinetic :: "material jsobj \<Rightarrow> real \<Rightarrow> jsnum" where
  "kinetic m time = Num 1 - Math_exp (- fld timeK m * Num time)"

definition phEffect :: "pollutant jsobj \<Rightarrow> real \<Rightarrow> jsnum" where
  "phEffect p pH =
     (if strict_eq (fld phDir p) (Num 1) then
        Num 1 / (Num 1 + Math_exp (Num (- 1.5) * (Num pH - Num 4.5)))
      else if strict_eq (fld phDir p) (Num (- 1)) then
        Num 1 / (Num 1 + Math_exp (Num 1.2 * (Num pH - Num 6.5)))
      else
        Num 0.85 + Num 0.15 * Math_exp (Num (- 0.3) * Math_pow (Num pH - Num 6) 2))"

definition concEffect :: "material jsobj \<Rightarrow> pollutant jsobj \<Rightarrow> real \<Rightarrow> jsnum" where
  "concEffect m p concentration =
     Math_exp (- fld concDecay m * (Num concentration - fld concBase p))"

definition compPenalty :: "bool \<Rightarrow> jsnum" where
  "compPenalty competition = (if competition then Num 0.92 else Num 1.0)"

definition removal_raw ::
  "material jsobj \<Rightarrow> pollutant jsobj \<Rightarrow> real \<Rightarrow> real \<Rightarrow> real \<Rightarrow> bool \<Rightarrow> jsnum" where
  "removal_raw m p pH concentration time competition =
     fld base m * kinetic m time * phEffect p pH * concEffect m p concentration
       * fld optMul p * compPenalty competition"

definition predictRemoval ::
  "string \<Rightarrow> string \<Rightarrow> real \<Rightarrow> real \<Rightarrow> real \<Rightarrow> bool \<Rightarrow> prediction" where
  "predictRemoval adsorbent pollutant pH concentration time competition =
     (case (MODEL_PARAMS adsorbent, POLLUTANT_MOD pollutant) of
        (Some m, Some p) \<Rightarrow>
          (let removal = removal_raw m p pH concentration time competition;
               removal = Math_min (Num 100) (Math_max (Num 0) (removal + fld synergy m));
               sd = Num 2.0 + Num 3.0 * (Num 1 - kinetic m time)
                      + Num 1.5 * Math_abs (Num pH - fld phOpt m) / Num 3
           in \<lparr>mean = Math_round (removal * Num 100) / Num 100,
               std = Math_round (sd * Num 100) / Num 100\<rparr>)
      | _ \<Rightarrow> \<lparr>mean = Num 0, std = Num 5\<rparr>)"

text \<open>
  \<^verbatim>\<open>competition\<close> has the default \<open>false\<close>: the optimizer and the explainer below call
  \<^verbatim>\<open>predictRemoval\<close> with five arguments, which is \<open>predictRemoval \<dots> False\<close> here.
\<close>

section \<open>The optimizer: \<^verbatim>\<open>bayesianOptimize\<close>\<close>

text \<open>
  The object stored in \<^verbatim>\<open>bestParams\<close> and the object pushed to \<^verbatim>\<open>history\<close>. Both have fields
  \<^verbatim>\<open>pH\<close>, \<^verbatim>\<open>time\<close>, \<^verbatim>\<open>concentration\<close>, \<^verbatim>\<open>predicted\<close> and \<^verbatim>\<open>std\<close>; the prefixes \<open>b_\<close> and \<open>s_\<close>
  keep the two records apart. The sampled inputs are reals, so their rounded values are.
\<close>

record best_params =
  b_pH :: real
  b_time :: real
  b_concentration :: real
  b_predicted :: jsnum
  b_std :: jsnum

record sample =
  iteration :: int
  s_pH :: real
  s_time :: real
  s_concentration :: real
  s_predicted :: jsnum
  s_std :: jsnum
  s_score :: jsnum

text \<open>
  \<^verbatim>\<open>bestScore\<close> starts at \<^verbatim>\<open>-Infinity\<close>, the only infinite number of the program;
  \<^verbatim>\<open>score > bestScore\<close> is then true of every score that is a number.
\<close>

datatype best_score = MinusInfinity | Score jsnum

fun js_gt :: "jsnum \<Rightarrow> best_score \<Rightarrow> bool" where
  "js_gt (Num s) MinusInfinity = True"
| "js_gt (Num s) (Score (Num b)) = (b < s)"
| "js_gt _ _ = False"

text \<open>The variables of the loop: \<^verbatim>\<open>bestParams\<close> (\<open>None\<close> is \<^verbatim>\<open>null\<close>), \<^verbatim>\<open>bestScore\<close>, \<^verbatim>\<open>history\<close>.\<close>

record bo_state =
  bestParams :: "best_params option"
  bestScore :: best_score
  hist :: "sample list"

record bo_result =
  best :: "best_params option"
  history :: "sample list"

text \<open>
  \<^verbatim>\<open>Math.random()\<close> is an explicit source \<open>rnd\<close>: \<open>rnd k\<close> is what the \<open>k\<close>-th call made by
  one run of \<^verbatim>\<open>bayesianOptimize\<close> returns (counting from \<open>0\<close>). Iteration \<open>i\<close> makes
  the calls \<open>3 i\<close>, \<open>3 i + 1\<close> and \<open>3 i + 2\<close>, for pH, time and concentration in this order.
  A range \<^verbatim>\<open>[lo, hi]\<close> is a pair.
\<close>

definition bo_body ::
  "(nat \<Rightarrow> real) \<Rightarrow> string \<Rightarrow> string \<Rightarrow> real \<Rightarrow> real \<times> real \<Rightarrow> real \<times> real \<Rightarrow> real \<times> real
     \<Rightarrow> nat \<Rightarrow> bo_state \<Rightarrow> bo_state" where
  "bo_body rnd pollutant adsorbent targetRemoval phRange timeRange concRange i st =
     (let pH = fst phRange + rnd (3 * i) * (snd phRange - fst phRange);
          time = fst timeRange + rnd (3 * i + 1) * (snd timeRange - fst timeRange);
          conc = fst concRange + rnd (3 * i + 2) * (snd concRange - fst concRange);
          pred = predictRemoval adsorbent pollutant pH conc time False;
          ei = mean pred - Num targetRemoval + Num 0.5 * std pred;
          score = (if num_le (Num targetRemoval) (mean pred)
                   then mean pred - Num 0.1 * std pred else ei);
          st = st\<lparr>hist := hist st @
                 [\<lparr>iteration = int i + 1, s_pH = toFixed_real 2 pH, s_time = toFixed_real 1 time,
                   s_concentration = toFixed_real 1 conc, s_predicted = mean pred,
                   s_std = std pred, s_score = toFixed 2 score\<rparr>]\<rparr>
      in if js_gt score (bestScore st)
         then st\<lparr>bestScore := Score score,
                 bestParams := Some \<lparr>b_pH = toFixed_real 2 pH, b_time = toFixed_real 1 time,
                   b_concentration = toFixed_real 1 conc, b_predicted = mean pred,
                   b_std = std pred\<rparr>\<rparr>
         else st)"

text \<open>
  The \<^verbatim>\<open>for\<close> loop, from counter \<open>i\<close> on. \<^verbatim>\<open>nIter\<close> is an integer (its default is 60, the
  caller in the source passes 80); the loop runs while \<open>i < nIter\<close>.
\<close>

function bo_loop ::
  "(nat \<Rightarrow> real) \<Rightarrow> string \<Rightarrow> string \<Rightarrow> real \<Rightarrow> real \<times> real \<Rightarrow> real \<times> real \<Rightarrow> real \<times> real
     \<Rightarrow> int \<Rightarrow> nat \<Rightarrow> bo_state \<Rightarrow> bo_state" where
  "bo_loop rnd pollutant adsorbent targetRemoval phRange timeRange concRange nIter i st =
     (if int i < nIter
      then bo_loop rnd pollutant adsorbent targetRemoval phRange timeRange concRange nIter (Suc i)
             (bo_body rnd pollutant adsorbent targetRemoval phRange timeRange concRange i st)
      else st)"
  by pat_completeness auto
termination
  by (relation "measure (\<lambda>(rnd, pollutant, adsorbent, targetRemoval, phRange, timeRange,
        concRange, nIter, i, st). nat (nIter - int i))") auto

declare bo_loop.simps [simp del]

definition bayesianOptimize ::
  "(nat \<Rightarrow> real) \<Rightarrow> string \<Rightarrow> string \<Rightarrow> real \<Rightarrow> real \<times> real \<Rightarrow> real \<times> real \<Rightarrow> real \<times> real
     \<Rightarrow> int \<Rightarrow> bo_result" where
  "bayesianOptimize rnd pollutant adsorbent targetRemoval phRange timeRange concRange nIter =
     (let st = bo_loop rnd pollutant adsorbent targetRemoval phRange timeRange concRange nIter 0
                 \<lparr>bestParams = None, bestScore = MinusInfinity, hist = []\<rparr>
      in \<lparr>best = bestParams st, history = hist st\<rparr>)"

section \<open>The explainer: \<^verbatim>\<open>computeSHAP\<close>\<close>

record feature =
  name :: string
  val :: jsnum
  absValue :: jsnum

text \<open>
  \<^verbatim>\<open>Array.prototype.sort\<close> with a comparator: the language requires a stable sort, and a
  comparator result that is \<open>NaN\<close> counts as \<open>0\<close>. For a consistent comparator the result
  is determined by that; it is computed here by stable insertion, where \<open>x\<close> goes behind
  \<open>y\<close> only if \<open>cmp x y > 0\<close>.
\<close>

fun insert_by :: "('a \<Rightarrow> 'a \<Rightarrow> jsnum) \<Rightarrow> 'a \<Rightarrow> 'a list \<Rightarrow> 'a list" where
  "insert_by cmp x [] = [x]"
| "insert_by cmp x (y # ys) =
     (if num_lt (Num 0) (cmp x y) then y # insert_by cmp x ys else x # y # ys)"

fun Array_sort :: "('a \<Rightarrow> 'a \<Rightarrow> jsnum) \<Rightarrow> 'a list \<Rightarrow> 'a list" where
  "Array_sort cmp [] = []"
| "Array_sort cmp (x # xs) = insert_by cmp x (Array_sort cmp xs)"

text \<open>The six features before rounding, in the order of the array literal.\<close>

definition features ::
  "string \<Rightarrow> string \<Rightarrow> real \<Rightarrow> real \<Rightarrow> real \<Rightarrow> (string \<times> jsnum) list" where
  "features adsorbent pollutant pH concentration time =
     (let base' = mean (predictRemoval adsorbent pollutant 6 10 15 False) in
      [(''Contact Time'',
          mean (predictRemoval adsorbent pollutant 6 10 time False) - base'),
       (''Initial pH'',
          mean (predictRemoval adsorbent pollutant pH 10 15 False) - base'),
       (''Concentration'',
          mean (predictRemoval adsorbent pollutant 6 concentration 15 False) - base'),
       (''Adsorbent Type'',
          mean (predictRemoval adsorbent pollutant 6 10 15 False)
            - mean (predictRemoval ''NC'' pollutant 6 10 15 False)),
       (''Pollutant Type'',
          mean (predictRemoval adsorbent pollutant 6 10 15 False)
            - mean (predictRemoval adsorbent ''Cd(II)'' 6 10 15 False)),
       (''Competition'', Num (- 3.2))])"

definition computeSHAP ::
  "string \<Rightarrow> string \<Rightarrow> real \<Rightarrow> real \<Rightarrow> real \<Rightarrow> feature list" where
  "computeSHAP adsorbent pollutant pH concentration time =
     Array_sort (\<lambda>a b. absValue b - absValue a)
       (map (\<lambda>(n, v). \<lparr>name = n, val = toFixed 2 v, absValue = toFixed 2 (Math_abs v)\<rparr>)
          (features adsorbent pollutant pH concentration time))"

text \<open>The contribution that a result list gives for a factor name.\<close>

definition contribution :: "string \<Rightarrow> feature list \<Rightarrow> jsnum option" where
  "contribution n fs = map_option val (find (\<lambda>f. name f = n) fs)"

section \<open>The formulas on registered entries\<close>

text \<open>
  For a registered material and a registered pollutant every field is a number, and
  \<^verbatim>\<open>predictRemoval\<close> computes the real-valued expressions below; \<open>predictRemoval_Own\<close>
  proves that they are what the function returns.
\<close>

definition kinetic_r :: "material \<Rightarrow> real \<Rightarrow> real" where
  "kinetic_r m t = 1 - exp (- timeK m * t)"

definition phEffect_r :: "pollutant \<Rightarrow> real \<Rightarrow> real" where
  "phEffect_r p pH =
     (if phDir p = 1 then 1 / (1 + exp (- 1.5 * (pH - 4.5)))
      else if phDir p = - 1 then 1 / (1 + exp (1.2 * (pH - 6.5)))
      else 0.85 + 0.15 * exp (- 0.3 * (pH - 6) ^ 2))"

definition concEffect_r :: "material \<Rightarrow> pollutant \<Rightarrow> real \<Rightarrow> real" where
  "concEffect_r m p c = exp (- concDecay m * (c - concBase p))"

definition raw_r :: "material \<Rightarrow> pollutant \<Rightarrow> real \<Rightarrow> real \<Rightarrow> real \<Rightarrow> bool \<Rightarrow> real" where
  "raw_r m p pH c t cp =
     base m * kinetic_r m t * phEffect_r p pH * concEffect_r m p c * optMul p
       * (if cp then 0.92 else 1) + synergy m"

definition mean_r :: "material \<Rightarrow> pollutant \<Rightarrow> real \<Rightarrow> real \<Rightarrow> real \<Rightarrow> bool \<Rightarrow> real" where
  "mean_r m p pH c t cp =
     of_int \<lfloor>min 100 (max 0 (raw_r m p pH c t cp)) * 100 + 1/2\<rfloor> / 100"

definition std_r :: "material \<Rightarrow> real \<Rightarrow> real \<Rightarrow> real" where
  "std_r m pH t =
     of_int \<lfloor>(2 + 3 * (1 - kinetic_r m t) + 1.5 * \<bar>pH - phOpt m\<bar> / 3) * 100 + 1/2\<rfloor> / 100"

text \<open>The entries of the two registries that the concrete scenarios use.\<close>

definition MNCJG_r :: material where
  "MNCJG_r = \<lparr>base = 92, timeK = 0.18, phOpt = 6.0, phSens = 3.5, concDecay = 0.008, synergy = 5\<rparr>"

definition Cd_r :: pollutant where
  "Cd_r = \<lparr>phDir = 1, optMul = 1.05, concBase = 5\<rparr>"

section \<open>The optimizer, trial by trial\<close>

text \<open>
  The values that iteration \<open>i\<close> of \<^verbatim>\<open>bayesianOptimize\<close> computes, as functions of \<open>i\<close>:
  the sampled inputs, the prediction, the acquisition score before rounding
  (\<^verbatim>\<open>score\<close>), the object pushed to \<^verbatim>\<open>history\<close> and the candidate for \<^verbatim>\<open>bestParams\<close>.
  \<open>bo_body_eq\<close> and \<open>bayesianOptimize_run\<close> prove that the loop is \<open>run\<close> on them;
  \<open>best_index\<close> is the index that a strictly-greater comparison retains.
\<close>

definition trial_pH :: "(nat \<Rightarrow> real) \<Rightarrow> real \<times> real \<Rightarrow> nat \<Rightarrow> real" where
  "trial_pH rnd phRange i = fst phRange + rnd (3 * i) * (snd phRange - fst phRange)"

definition trial_time :: "(nat \<Rightarrow> real) \<Rightarrow> real \<times> real \<Rightarrow> nat \<Rightarrow> real" where
  "trial_time rnd timeRange i = fst timeRange + rnd (3 * i + 1) * (snd timeRange - fst timeRange)"

definition trial_conc :: "(nat \<Rightarrow> real) \<Rightarrow> real \<times> real \<Rightarrow> nat \<Rightarrow> real" where
  "trial_conc rnd concRange i = fst concRange + rnd (3 * i + 2) * (snd concRange - fst concRange)"

definition trial_pred ::
  "(nat \<Rightarrow> real) \<Rightarrow> string \<Rightarrow> string \<Rightarrow> real \<times> real \<Rightarrow> real \<times> real \<Rightarrow> real \<times> real
     \<Rightarrow> nat \<Rightarrow> prediction" where
  "trial_pred rnd pollutant adsorbent phRange timeRange concRange i =
     predictRemoval adsorbent pollutant (trial_pH rnd phRange i) (trial_conc rnd concRange i)
       (trial_time rnd timeRange i) False"

definition acquisition :: "prediction \<Rightarrow> real \<Rightarrow> jsnum" where
  "acquisition pred targetRemoval =
     (if num_le (Num targetRemoval) (mean pred) then mean pred - Num 0.1 * std pred
      else mean pred - Num targetRemoval + Num 0.5 * std pred)"

definition trial_score ::
  "(nat \<Rightarrow> real) \<Rightarrow> string \<Rightarrow> string \<Rightarrow> real \<Rightarrow> real \<times> real \<Rightarrow> real \<times> real \<Rightarrow> real \<times> real
     \<Rightarrow> nat \<Rightarrow> jsnum" where
  "trial_score rnd pollutant adsorbent targetRemoval phRange timeRange concRange i =
     acquisition (trial_pred rnd pollutant adsorbent phRange timeRange concRange i) targetRemoval"

definition trial_params ::
  "(nat \<Rightarrow> real) \<Rightarrow> string \<Rightarrow> string \<Rightarrow> real \<times> real \<Rightarrow> real \<times> real \<Rightarrow> real \<times> real
     \<Rightarrow> nat \<Rightarrow> best_params" where
  "trial_params rnd pollutant adsorbent phRange timeRange concRange i =
     \<lparr>b_pH = toFixed_real 2 (trial_pH rnd phRange i),
      b_time = toFixed_real 1 (trial_time rnd timeRange i),
      b_concentration = toFixed_real 1 (trial_conc rnd concRange i),
      b_predicted = mean (trial_pred rnd pollutant adsorbent phRange timeRange concRange i),
      b_std = std (trial_pred rnd pollutant adsorbent phRange timeRange concRange i)\<rparr>"

definition trial_entry ::
  "(nat \<Rightarrow> real) \<Rightarrow> string \<Rightarrow> string \<Rightarrow> real \<Rightarrow> real \<times> real \<Rightarrow> real \<times> real \<Rightarrow> real \<times> real
     \<Rightarrow> nat \<Rightarrow> sample" where
  "trial_entry rnd pollutant adsorbent targetRemoval phRange timeRange concRange i =
     \<lparr>iteration = int i + 1,
      s_pH = toFixed_real 2 (trial_pH rnd phRange i),
      s_time = toFixed_real 1 (trial_time rnd timeRange i),
      s_concentration = toFixed_real 1 (trial_conc rnd concRange i),
      s_predicted = mean (trial_pred rnd pollutant adsorbent phRange timeRange concRange i),
      s_std = std (trial_pred rnd pollutant adsorbent phRange timeRange concRange i),
      s_score = toFixed 2
        (trial_score rnd pollutant adsorbent targetRemoval phRange timeRange concRange i)\<rparr>"

definition sample_params :: "sample \<Rightarrow> best_params" where
  "sample_params e =
     \<lparr>b_pH = s_pH e, b_time = s_time e, b_concentration = s_concentration e,
      b_predicted = s_predicted e, b_std = s_std e\<rparr>"

definition record_trial :: "sample \<Rightarrow> jsnum \<Rightarrow> bo_state \<Rightarrow> bo_state" where
  "record_trial e s st =
     (let st = st\<lparr>hist := hist st @ [e]\<rparr>
      in if js_gt s (bestScore st)
         then st\<lparr>bestScore := Score s, bestParams := Some (sample_params e)\<rparr> else st)"

fun run :: "(nat \<Rightarrow> sample) \<Rightarrow> (nat \<Rightarrow> jsnum) \<Rightarrow> nat \<Rightarrow> bo_state" where
  "run e s 0 = \<lparr>bestParams = None, bestScore = MinusInfinity, hist = []\<rparr>"
| "run e s (Suc n) = record_trial (e n) (s n) (run e s n)"

fun best_index :: "(nat \<Rightarrow> jsnum) \<Rightarrow> nat \<Rightarrow> nat option" where
  "best_index s 0 = None"
| "best_index s (Suc n) =
     (case best_index s n of
        None \<Rightarrow> (if s n = NaN then None else Some n)
      | Some k \<Rightarrow> (if num_lt (s k) (s n) then Some n else Some k))"

text \<open>Concrete sources of random numbers for the examples.\<close>

definition const_draws :: "nat \<Rightarrow> real" where
  "const_draws k = 1/2"

definition tie_draws :: "nat \<Rightarrow> real" where
  "tie_draws k = (if k = 0 then 0.04 else if k = 3 then 0.02 else 1/2)"

definition Pb_r :: pollutant where
  "Pb_r = \<lparr>phDir = 1, optMul = 1.08, concBase = 5\<rparr>"

section \<open>The explainer, item by item\<close>

text \<open>
  \<open>to_feature\<close> is the function that \<^verbatim>\<open>computeSHAP\<close> maps over the array literal;
  \<open>NC_r\<close> is the registered entry of the reference material.
\<close>

definition NC_r :: material where
  "NC_r = \<lparr>base = 55, timeK = 0.10, phOpt = 5.5, phSens = 5.0, concDecay = 0.018, synergy = 0\<rparr>"

definition to_feature :: "string \<times> jsnum \<Rightarrow> feature" where
  "to_feature = (\<lambda>(n, v). \<lparr>name = n, val = toFixed 2 v, absValue = toFixed 2 (Math_abs v)\<rparr>)"

section \<open>The kinetic factor in double arithmetic\<close>

text \<open>
  Whether the kinetic factor grows \<^emph>\<open>strictly\<close> depends on the rounding of doubles, which
  the reals above do not have. Line 34 of the source, \<^verbatim>\<open>1 - Math.exp(-m.timeK * time)\<close>, is
  therefore also given with IEEE-754 binary64 arithmetic: every literal and every result is
  rounded to the nearest double, a tie to the even significand (\<open>double_round\<close>, with 53
  bits and the smallest exponent \<open>-1022\<close>, so that subnormal numbers are covered). A result
  beyond the largest double is \<open>None\<close>: the program goes on with an infinity there, which
  this reading does not follow. \<^verbatim>\<open>Math.exp\<close> is taken as correctly rounded; the language only
  asks for an approximation, and the saturation shown below only uses that the result at an
  argument below \<open>-46\<close> is a double between \<open>0\<close> and \<open>2\<^sup>-\<^sup>5\<^sup>5\<close>. The argument \<open>time\<close> is a double.
\<close>

definition round_half_even :: "real \<Rightarrow> int" where
  "round_half_even z =
     (let f = \<lfloor>z\<rfloor> in
      if z - of_int f < 1/2 then f
      else if 1/2 < z - of_int f then f + 1
      else if even f then f else f + 1)"

definition double_ulp :: "real \<Rightarrow> real" where
  "double_ulp x = 2 powr (of_int (max \<lfloor>log 2 \<bar>x\<bar>\<rfloor> (- 1022)) - 52)"

definition double_exponent :: "real \<Rightarrow> int" where
  "double_exponent x = max \<lfloor>log 2 \<bar>x\<bar>\<rfloor> (- 1022)"

definition double_round :: "real \<Rightarrow> real" where
  "double_round x =
     (if x = 0 then 0 else of_int (round_half_even (x / double_ulp x)) * double_ulp x)"

definition max_double :: real where
  "max_double = (2 ^ 53 - 1) * 2 ^ 971"

definition to_double :: "real \<Rightarrow> real option" where
  "to_double x = (let y = double_round x in if \<bar>y\<bar> \<le> max_double then Some y else None)"

definition kinetic_double :: "material \<Rightarrow> real \<Rightarrow> real option" where
  "kinetic_double m time =
     Option.bind (to_double (timeK m)) (\<lambda>k.
     Option.bind (to_double (- k * time)) (\<lambda>a.
     Option.bind (to_double (exp a)) (\<lambda>e.
     to_double (1 - e))))"

section \<open>Properties of \<^verbatim>\<open>predictRemoval\<close>\<close>

lemma one_plus_exp_neq0 [simp]: "1 + exp (x::real) \<noteq> 0"
  using exp_gt_zero [of x] by linarith

lemma kinetic_Own [simp]: "kinetic (Own m) t = Num (kinetic_r m t)"
  by (simp add: kinetic_def kinetic_r_def)

lemma phEffect_Own [simp]: "phEffect (Own p) pH = Num (phEffect_r p pH)"
  by (simp add: phEffect_def phEffect_r_def)

lemma concEffect_Own [simp]: "concEffect (Own m) (Own p) c = Num (concEffect_r m p c)"
  by (simp add: concEffect_def concEffect_r_def)

lemma predictRemoval_Own:
  assumes "MODEL_PARAMS a = Some (Own m)" and "POLLUTANT_MOD p = Some (Own q)"
  shows "predictRemoval a p pH c t cp =
           \<lparr>mean = Num (mean_r m q pH c t cp), std = Num (std_r m pH t)\<rparr>"
  using assms
  by (simp add: predictRemoval_def removal_raw_def compPenalty_def raw_r_def mean_r_def
      std_r_def Let_def)

lemma predictRemoval_undefined:
  assumes "MODEL_PARAMS a = None \<or> POLLUTANT_MOD p = None"
  shows "predictRemoval a p pH c t cp = \<lparr>mean = Num 0, std = Num 5\<rparr>"
  using assms by (auto simp: predictRemoval_def split: option.splits)

lemma kinetic_Inherited [simp]: "kinetic Inherited t = NaN"
  by (simp add: kinetic_def)

lemma concEffect_Inherited [simp]: "concEffect m Inherited c = NaN"
  by (cases m) (simp_all add: concEffect_def)

lemma predictRemoval_Inherited_material:
  assumes "MODEL_PARAMS a = Some Inherited" and "POLLUTANT_MOD p = Some q"
  shows "predictRemoval a p pH c t cp = \<lparr>mean = NaN, std = NaN\<rparr>"
  using assms
  by (simp add: predictRemoval_def removal_raw_def Let_def)

lemma predictRemoval_Inherited_pollutant:
  assumes "MODEL_PARAMS a = Some m" and "POLLUTANT_MOD p = Some Inherited"
  shows "mean (predictRemoval a p pH c t cp) = NaN"
  using assms
  by (cases m; cases "phEffect Inherited pH") (simp_all add: predictRemoval_def removal_raw_def Let_def)

lemma MODEL_PARAMS_constructor: "MODEL_PARAMS ''constructor'' = Some Inherited"
  by (simp add: MODEL_PARAMS_def property_def MODEL_PARAMS_own_def Object_prototype_def)

lemma POLLUTANT_MOD_Cd: "POLLUTANT_MOD ''Cd(II)'' = Some (Own Cd_r)"
  by (simp add: POLLUTANT_MOD_def property_def POLLUTANT_MOD_own_def Cd_r_def)

lemma MODEL_PARAMS_Own_cases:
  assumes "MODEL_PARAMS a = Some (Own m)"
  shows "(a, m) \<in> set MODEL_PARAMS_own"
  using assms by (auto simp: MODEL_PARAMS_def property_def dest: map_of_SomeD split: option.splits if_splits)

lemma POLLUTANT_MOD_Own_cases:
  assumes "POLLUTANT_MOD a = Some (Own m)"
  shows "(a, m) \<in> set POLLUTANT_MOD_own"
  using assms by (auto simp: POLLUTANT_MOD_def property_def dest: map_of_SomeD split: option.splits if_splits)

lemma material_positive:
  assumes "MODEL_PARAMS a = Some (Own m)"
  shows "0 < base m" "0 < timeK m" "0 < concDecay m" "0 \<le> synergy m"
  using MODEL_PARAMS_Own_cases [OF assms] by (auto simp: MODEL_PARAMS_own_def)

lemma pollutant_positive:
  assumes "POLLUTANT_MOD a = Some (Own p)"
  shows "0 < optMul p"
  using POLLUTANT_MOD_Own_cases [OF assms] by (auto simp: POLLUTANT_MOD_own_def)

lemma round100_mono:
  fixes x y :: real assumes "x \<le> y"
  shows "real_of_int \<lfloor>x * 100 + 1/2\<rfloor> / 100 \<le> real_of_int \<lfloor>y * 100 + 1/2\<rfloor> / 100"
proof -
  have "\<lfloor>x * 100 + 1/2\<rfloor> \<le> \<lfloor>y * 100 + 1/2\<rfloor>"
    using assms by (intro floor_mono) simp
  then show ?thesis by (simp add: divide_right_mono)
qed

lemma mean_r_mono:
  assumes "raw_r m p pH1 c1 t1 cp1 \<le> raw_r m' p' pH2 c2 t2 cp2"
  shows "mean_r m p pH1 c1 t1 cp1 \<le> mean_r m' p' pH2 c2 t2 cp2"
proof -
  have "min 100 (max 0 (raw_r m p pH1 c1 t1 cp1)) \<le> min 100 (max 0 (raw_r m' p' pH2 c2 t2 cp2))"
    using assms by linarith
  then show ?thesis unfolding mean_r_def by (rule round100_mono)
qed

lemma mean_r_range: "0 \<le> mean_r m p pH c t cp" "mean_r m p pH c t cp \<le> 100"
proof -
  let ?x = "min 100 (max 0 (raw_r m p pH c t cp))"
  have "0 \<le> ?x" "?x \<le> 100" by simp_all
  then have "\<lfloor>(0::real) * 100 + 1/2\<rfloor> \<le> \<lfloor>?x * 100 + 1/2\<rfloor>" "\<lfloor>?x * 100 + 1/2\<rfloor> \<le> \<lfloor>(100::real) * 100 + 1/2\<rfloor>"
    by (intro floor_mono; simp)+
  moreover have "\<lfloor>(0::real) * 100 + 1/2\<rfloor> = 0" "\<lfloor>(100::real) * 100 + 1/2\<rfloor> = 10000" by simp_all
  ultimately have "0 \<le> \<lfloor>?x * 100 + 1/2\<rfloor>" "\<lfloor>?x * 100 + 1/2\<rfloor> \<le> 10000" by simp_all
  then show "0 \<le> mean_r m p pH c t cp" "mean_r m p pH c t cp \<le> 100"
    unfolding mean_r_def by simp_all
qed

lemma std_r_ge_2: "2 \<le> std_r m pH t"
proof -
  define d where "d = 1 - kinetic_r m t"
  define e where "e = 1.5 * \<bar>pH - phOpt m\<bar> / 3"
  have "0 \<le> d" by (simp add: d_def kinetic_r_def)
  moreover have "0 \<le> e" by (simp add: e_def)
  ultimately have "(2::real) * 100 + 1/2 \<le> (2 + 3 * d + e) * 100 + 1/2" by simp
  then have "\<lfloor>(2::real) * 100 + 1/2\<rfloor> \<le> \<lfloor>(2 + 3 * d + e) * 100 + 1/2\<rfloor>" by (rule floor_mono)
  moreover have "\<lfloor>(2::real) * 100 + 1/2\<rfloor> = 200" by simp
  ultimately have "200 \<le> \<lfloor>(2 + 3 * d + e) * 100 + 1/2\<rfloor>" by simp
  then show ?thesis unfolding std_r_def d_def e_def by simp
qed

lemma phEffect_r_nonneg: "0 \<le> phEffect_r p pH"
  by (simp add: phEffect_r_def add_nonneg_nonneg)

lemma concEffect_r_pos: "0 < concEffect_r m p c"
  by (simp add: concEffect_r_def)

lemma kinetic_r_strict_mono:
  assumes "0 < timeK m" "t1 < t2" shows "kinetic_r m t1 < kinetic_r m t2"
  using assms by (simp add: kinetic_r_def)


lemma raw_r_mono_time:
  assumes "0 < base m" "0 < timeK m" "0 < optMul p" "t1 \<le> t2"
  shows "raw_r m p pH c t1 cp \<le> raw_r m p pH c t2 cp"
proof -
  have k: "kinetic_r m t1 \<le> kinetic_r m t2"
    using assms by (simp add: kinetic_r_def mult_left_mono)
  have "base m * kinetic_r m t1 \<le> base m * kinetic_r m t2"
    using k assms by (simp add: mult_left_mono)
  then have "base m * kinetic_r m t1 * phEffect_r p pH \<le> base m * kinetic_r m t2 * phEffect_r p pH"
    by (rule mult_right_mono) (rule phEffect_r_nonneg)
  then have "base m * kinetic_r m t1 * phEffect_r p pH * concEffect_r m p c
      \<le> base m * kinetic_r m t2 * phEffect_r p pH * concEffect_r m p c"
    by (rule mult_right_mono) (simp add: less_imp_le [OF concEffect_r_pos])
  then have "base m * kinetic_r m t1 * phEffect_r p pH * concEffect_r m p c * optMul p
      \<le> base m * kinetic_r m t2 * phEffect_r p pH * concEffect_r m p c * optMul p"
    by (rule mult_right_mono) (simp add: less_imp_le assms)
  then have "base m * kinetic_r m t1 * phEffect_r p pH * concEffect_r m p c * optMul p * (if cp then 0.92 else 1)
      \<le> base m * kinetic_r m t2 * phEffect_r p pH * concEffect_r m p c * optMul p * (if cp then 0.92 else 1)"
    by (rule mult_right_mono) simp
  then show ?thesis by (simp add: raw_r_def)
qed



text \<open>
  Claim C7, as the code has it. For a registered material and a registered pollutant, any
  pH and competition flag, a concentration \<open>c \<ge> 0\<close> and contact times \<open>0 \<le> t1 < t2\<close>: the
  kinetic factor at \<open>t1\<close> is at most the one at \<open>t2\<close>, and the mean removal returned for
  \<open>t1\<close> is at most the one returned for \<open>t2\<close>. The order of the kinetic factors is weak:
  in the double arithmetic of the program the factor reaches \<open>1\<close> and stays there, as the
  section on double arithmetic below shows. The bound on the concentration keeps
  \<^verbatim>\<open>concEffect\<close> within the range of doubles: for a concentration far below zero it is
  \<open>Infinity\<close> in the program, and at time \<open>0\<close> the product \<open>0 * Infinity\<close> makes the mean
  \<open>NaN\<close>, a case outside the numbers modelled here.
\<close>

theorem kinetic_and_mean_monotone_in_time:
  assumes "MODEL_PARAMS a = Some (Own m)" and "POLLUTANT_MOD p = Some (Own q)"
    and "0 \<le> c" and "0 \<le> t1" and "t1 < t2"
  shows "num_le (kinetic (Own m) t1) (kinetic (Own m) t2) \<and>
         num_le (mean (predictRemoval a p pH c t1 cp)) (mean (predictRemoval a p pH c t2 cp))"
proof -
  note pos = material_positive [OF assms(1)] pollutant_positive [OF assms(2)]
  have "kinetic_r m t1 < kinetic_r m t2"
    using pos(2) assms(5) by (rule kinetic_r_strict_mono)
  moreover have "mean_r m q pH c t1 cp \<le> mean_r m q pH c t2 cp"
    using pos assms(5) by (intro mean_r_mono raw_r_mono_time) simp_all
  ultimately show ?thesis
    by (simp add: predictRemoval_Own [OF assms(1,2)])
qed


lemma MODEL_PARAMS_MNCJG:
  "MODEL_PARAMS ''MNCJG'' = Some (Own MNCJG_r)"
  by (simp add: MODEL_PARAMS_def property_def MODEL_PARAMS_own_def MNCJG_r_def)

text \<open>The hypotheses of C7 and C8 hold for \<^verbatim>\<open>MNCJG\<close> and \<^verbatim>\<open>Cd(II)\<close>.\<close>

theorem kinetic_and_mean_monotone_in_time_witness:
  "MODEL_PARAMS ''MNCJG'' = Some (Own MNCJG_r)
   \<and> POLLUTANT_MOD ''Cd(II)'' = Some (Own Cd_r)
   \<and> (0::real) \<le> 10 \<and> (0::real) \<le> 5 \<and> (5::real) < 30
   \<and> num_le (kinetic (Own MNCJG_r) 5) (kinetic (Own MNCJG_r) 30)
   \<and> num_le (mean (predictRemoval ''MNCJG'' ''Cd(II)'' 6 10 5 False))
        (mean (predictRemoval ''MNCJG'' ''Cd(II)'' 6 10 30 False))"
  using kinetic_and_mean_monotone_in_time
      [OF MODEL_PARAMS_MNCJG POLLUTANT_MOD_Cd, of 10 5 30 6 False]
    MODEL_PARAMS_MNCJG POLLUTANT_MOD_Cd
  by simp


lemma predictRemoval_range:
  assumes "MODEL_PARAMS a \<noteq> Some Inherited" and "POLLUTANT_MOD p \<noteq> Some Inherited"
  shows "\<exists>\<mu> \<sigma>. predictRemoval a p pH c t cp = \<lparr>mean = Num \<mu>, std = Num \<sigma>\<rparr>
            \<and> 0 \<le> \<mu> \<and> \<mu> \<le> 100 \<and> 0 < \<sigma>"
proof (cases "MODEL_PARAMS a = None \<or> POLLUTANT_MOD p = None")
  case True
  then show ?thesis by (simp add: predictRemoval_undefined)
next
  case False
  with assms obtain m q where mq: "MODEL_PARAMS a = Some (Own m)" "POLLUTANT_MOD p = Some (Own q)"
    by (metis jsobj.exhaust option.exhaust)
  have "0 < std_r m pH t" using std_r_ge_2 [of m pH t] by linarith
  then show ?thesis
    using mean_r_range [of m q pH c t cp] by (simp add: predictRemoval_Own [OF mq])
qed

section \<open>Identifiers outside the registries\<close>

lemma property_None:
  "property obj k = None \<longleftrightarrow> map_of obj k = None \<and> k \<notin> set Object_prototype"
  by (simp add: property_def split: option.splits)

text \<open>
  An identifier that is neither registered nor the name of a member of
  \<^verbatim>\<open>Object.prototype\<close> gives the fallback result.
\<close>

lemma predictRemoval_unknown:
  assumes "(map_of MODEL_PARAMS_own a = None \<and> a \<notin> set Object_prototype)
         \<or> (map_of POLLUTANT_MOD_own p = None \<and> p \<notin> set Object_prototype)"
  shows "predictRemoval a p pH c t cp = \<lparr>mean = Num 0, std = Num 5\<rparr>"
  using assms
  by (intro predictRemoval_undefined) (simp add: MODEL_PARAMS_def POLLUTANT_MOD_def property_None)

lemma POLLUTANT_MOD_toString: "POLLUTANT_MOD ''toString'' = Some Inherited"
  by (simp add: POLLUTANT_MOD_def property_def POLLUTANT_MOD_own_def Object_prototype_def)

text \<open>
  Claim C3 at a failing input. \<^verbatim>\<open>''constructor''\<close> is not a registered material, yet
  \<^verbatim>\<open>MODEL_PARAMS[''constructor'']\<close> is the inherited \<^verbatim>\<open>Object\<close> function, which is truthy:
  the guard \<^verbatim>\<open>!m || !p\<close> does not fire, every field of \<open>m\<close> reads as \<^verbatim>\<open>undefined\<close>, and
  the call returns \<open>NaN\<close> for mean and std instead of the fallback \<open>0\<close> and \<open>5\<close>. An
  unregistered pollutant of this kind gives a \<open>NaN\<close> mean in the same way.
\<close>

theorem predictRemoval_inherited_key_not_fallback:
  "map_of MODEL_PARAMS_own ''constructor'' = None
   \<and> predictRemoval ''constructor'' ''Cd(II)'' 6 10 15 False = \<lparr>mean = NaN, std = NaN\<rparr>
   \<and> map_of POLLUTANT_MOD_own ''toString'' = None
   \<and> mean (predictRemoval ''MNCJG'' ''toString'' 6 10 15 False) = NaN"
  using predictRemoval_Inherited_material [OF MODEL_PARAMS_constructor POLLUTANT_MOD_Cd]
    predictRemoval_Inherited_pollutant [OF MODEL_PARAMS_MNCJG POLLUTANT_MOD_toString]
  by (simp add: MODEL_PARAMS_own_def POLLUTANT_MOD_own_def)

text \<open>
  Claim C4 at the same failing input: the returned mean is \<open>NaN\<close>, so neither
  \<open>0 \<le> mean\<close> nor \<open>mean \<le> 100\<close> holds, and \<open>std > 0\<close> does not hold either. For
  identifiers that are registered or unknown (not inherited names) the claim holds
  (\<open>predictRemoval_range\<close>).
\<close>

theorem predictRemoval_inherited_key_out_of_range:
  "\<not> num_le (Num 0) (mean (predictRemoval ''constructor'' ''Cd(II)'' 6 10 15 False))
   \<and> \<not> num_le (mean (predictRemoval ''constructor'' ''Cd(II)'' 6 10 15 False)) (Num 100)
   \<and> \<not> num_lt (Num 0) (std (predictRemoval ''constructor'' ''Cd(II)'' 6 10 15 False))"
  by (simp add: predictRemoval_Inherited_material [OF MODEL_PARAMS_constructor POLLUTANT_MOD_Cd])

section \<open>Bounds on the exponential function\<close>

text \<open>
  Taylor's theorem gives rational bounds on \<open>exp x\<close> for \<open>x \<ge> 0\<close>: the partial sum from
  below, and the partial sum divided by \<open>1 - x\<^sup>n / n!\<close> from above.
\<close>

lemma exp_taylor_lower:
  fixes x :: real assumes "0 \<le> x"
  shows "(\<Sum>m<n. x ^ m / fact m) \<le> exp x"
proof -
  obtain t where t: "exp x = (\<Sum>m<n. x ^ m / fact m) + exp t / fact n * x ^ n"
    using Maclaurin_exp_le [of x n] by blast
  have "0 \<le> exp t / fact n * x ^ n" using assms by simp
  with t show ?thesis by linarith
qed

lemma exp_taylor_upper:
  fixes x :: real assumes "0 \<le> x" and "x ^ n / fact n < 1"
  shows "exp x \<le> (\<Sum>m<n. x ^ m / fact m) / (1 - x ^ n / fact n)"
proof -
  define S where "S = (\<Sum>m<n. x ^ m / fact m)"
  define r where "r = x ^ n / fact n"
  obtain t where tx: "\<bar>t\<bar> \<le> \<bar>x\<bar>" and t: "exp x = S + exp t / fact n * x ^ n"
    unfolding S_def using Maclaurin_exp_le [of x n] by blast
  have r0: "0 \<le> r" and r1: "r < 1" using assms by (simp_all add: r_def)
  have "exp t \<le> exp x" using tx assms by simp
  then have "exp t * r \<le> exp x * r" using r0 by (rule mult_right_mono)
  moreover have "exp x = S + exp t * r" using t by (simp add: r_def)
  ultimately have "exp x * (1 - r) \<le> S" by (simp add: algebra_simps)
  then have "exp x \<le> S / (1 - r)" using r1 by (simp add: pos_le_divide_eq)
  then show ?thesis by (simp add: S_def r_def)
qed

lemma exp_minus_bounds:
  fixes x :: real assumes "0 < a" "a \<le> exp x" "exp x \<le> b"
  shows "1 / b \<le> exp (- x)" "exp (- x) \<le> 1 / a"
proof -
  have e: "exp (- x) = 1 / exp x" by (simp add: exp_minus inverse_eq_divide)
  show "1 / b \<le> exp (- x)" unfolding e using assms by (intro divide_left_mono) simp_all
  show "exp (- x) \<le> 1 / a" unfolding e using assms by (intro divide_left_mono) simp_all
qed

lemma exp_27_5: "221.40 \<le> exp (27/5 :: real)" "exp (27/5 :: real) \<le> 221.41"
proof -
  have "221.40 \<le> (\<Sum>m<22. (27/5 :: real) ^ m / fact m)"
    by (simp add: eval_nat_numeral lessThan_Suc fact_numeral)
  also have "\<dots> \<le> exp (27/5)"
    by (rule exp_taylor_lower) simp
  finally show "221.40 \<le> exp (27/5 :: real)" .
  have "exp (27/5 :: real) \<le> (\<Sum>m<22. (27/5) ^ m / fact m) / (1 - (27/5) ^ 22 / fact 22)"
    by (rule exp_taylor_upper) (simp_all add: fact_numeral power_divide)
  also have "\<dots> \<le> 221.41"
    by (simp add: eval_nat_numeral lessThan_Suc fact_numeral)
  finally show "exp (27/5 :: real) \<le> 221.41" .
qed

lemma exp_9_4: "9.4877 \<le> exp (9/4 :: real)" "exp (9/4 :: real) \<le> 9.4878"
proof -
  have "9.4877 \<le> (\<Sum>m<15. (9/4 :: real) ^ m / fact m)"
    by (simp add: eval_nat_numeral lessThan_Suc fact_numeral)
  also have "\<dots> \<le> exp (9/4)"
    by (rule exp_taylor_lower) simp
  finally show "9.4877 \<le> exp (9/4 :: real)" .
  have "exp (9/4 :: real) \<le> (\<Sum>m<15. (9/4) ^ m / fact m) / (1 - (9/4) ^ 15 / fact 15)"
    by (rule exp_taylor_upper) (simp_all add: fact_numeral power_divide)
  also have "\<dots> \<le> 9.4878"
    by (simp add: eval_nat_numeral lessThan_Suc fact_numeral)
  finally show "exp (9/4 :: real) \<le> 9.4878" .
qed

lemma exp_m27_5: "1 / 221.41 \<le> exp (- (27/5) :: real)" "exp (- (27/5) :: real) \<le> 1 / 221.40"
  using exp_minus_bounds [OF _ exp_27_5] by simp_all

lemma exp_m9_4: "1 / 9.4878 \<le> exp (- (9/4) :: real)" "exp (- (9/4) :: real) \<le> 1 / 9.4877"
  using exp_minus_bounds [OF _ exp_9_4] by simp_all

section \<open>The concrete scenario: \<^verbatim>\<open>MNCJG\<close>, \<^verbatim>\<open>Cd(II)\<close>, pH 6, concentration 5, time 30\<close>

lemma kinetic_MNCJG_30:
  "1 - 1 / 221.40 \<le> kinetic_r MNCJG_r 30" "kinetic_r MNCJG_r 30 \<le> 1 - 1 / 221.41"
  using exp_m27_5 by (simp_all add: kinetic_r_def MNCJG_r_def)

lemma phEffect_Cd_6:
  "1 / (1 + 1 / 9.4877) \<le> phEffect_r Cd_r 6" "phEffect_r Cd_r 6 \<le> 1 / (1 + 1 / 9.4878)"
proof -
  have e: "phEffect_r Cd_r 6 = 1 / (1 + exp (- (9/4)))"
    by (simp add: phEffect_r_def Cd_r_def)
  have pos: "0 < 1 + exp (- (9/4) :: real)" by (simp add: add_pos_pos)
  show "1 / (1 + 1 / 9.4877) \<le> phEffect_r Cd_r 6"
    unfolding e using exp_m9_4(2) pos by (intro divide_left_mono) simp_all
  show "phEffect_r Cd_r 6 \<le> 1 / (1 + 1 / 9.4878)"
    unfolding e using exp_m9_4(1) pos by (intro divide_left_mono) simp_all
qed

lemma concEffect_MNCJG_Cd_5: "concEffect_r MNCJG_r Cd_r 5 = 1"
  by (simp add: concEffect_r_def Cd_r_def)

lemma raw_MNCJG_Cd_6_5_30:
  "91.994 \<le> raw_r MNCJG_r Cd_r 6 5 30 False" "raw_r MNCJG_r Cd_r 6 5 30 False \<le> 91.9947"
proof -
  define k where "k = kinetic_r MNCJG_r 30"
  define f where "f = phEffect_r Cd_r 6"
  define p where "p = k * f"
  have "raw_r MNCJG_r Cd_r 6 5 30 False = 96.6 * (k * f) + 5"
    unfolding raw_r_def concEffect_MNCJG_Cd_5 k_def f_def by (simp add: MNCJG_r_def Cd_r_def)
  then have r: "raw_r MNCJG_r Cd_r 6 5 30 False = 96.6 * p + 5"
    by (simp only: p_def)
  have k: "1 - 1 / 221.40 \<le> k" "k \<le> 1 - 1 / 221.41"
    using kinetic_MNCJG_30 by (simp_all add: k_def)
  have f: "1 / (1 + 1 / 9.4877) \<le> f" "f \<le> 1 / (1 + 1 / 9.4878)"
    using phEffect_Cd_6 by (simp_all add: f_def)
  have "(1 - 1 / 221.40) * (1 / (1 + 1 / 9.4877)) \<le> p"
    unfolding p_def using k(1) f(1) by (intro mult_mono) simp_all
  moreover have "(0.90056 :: real) \<le> (1 - 1 / 221.40) * (1 / (1 + 1 / 9.4877))" by simp
  ultimately have lo: "0.90056 \<le> p" by linarith
  have "0 \<le> k" "0 \<le> f" using k(1) f(1) by simp_all
  then have "p \<le> (1 - 1 / 221.41) * (1 / (1 + 1 / 9.4878))"
    unfolding p_def using k(2) f(2) by (intro mult_mono) simp_all
  moreover have "(1 - 1 / 221.41) * (1 / (1 + 1 / 9.4878)) \<le> (0.900566 :: real)" by simp
  ultimately have hi: "p \<le> 0.900566" by linarith
  show "91.994 \<le> raw_r MNCJG_r Cd_r 6 5 30 False" unfolding r using lo by simp
  show "raw_r MNCJG_r Cd_r 6 5 30 False \<le> 91.9947" unfolding r using hi by simp
qed

lemma mean_MNCJG_Cd_6_5_30: "mean_r MNCJG_r Cd_r 6 5 30 False = 91.99"
proof -
  define x where "x = raw_r MNCJG_r Cd_r 6 5 30 False"
  have x: "91.994 \<le> x" "x \<le> 91.9947"
    using raw_MNCJG_Cd_6_5_30 by (simp_all add: x_def)
  then have "min 100 (max 0 x) = x" by simp
  moreover have "\<lfloor>x * 100 + 1/2\<rfloor> = 9199"
    using x by (simp add: floor_eq_iff)
  ultimately show ?thesis unfolding mean_r_def x_def [symmetric] by simp
qed

lemma std_MNCJG_6_30: "std_r MNCJG_r 6 30 = 2.01"
proof -
  define k where "k = kinetic_r MNCJG_r 30"
  have k: "1 - 1 / 221.40 \<le> k" "k \<le> 1 - 1 / 221.41"
    using kinetic_MNCJG_30 by (simp_all add: k_def)
  have "\<lfloor>(2 + 3 * (1 - k) + 1.5 * \<bar>6 - phOpt MNCJG_r\<bar> / 3) * 100 + 1/2\<rfloor> = 201"
    using k by (simp add: floor_eq_iff MNCJG_r_def)
  then show ?thesis unfolding std_r_def k_def by simp
qed


text \<open>
  Claim C2, as the code computes it. For \<^verbatim>\<open>MNCJG\<close> (base 92, rate constant 0.18, pH optimum
  6) and \<^verbatim>\<open>Cd(II)\<close> (high-pH direction, multiplier 1.05, reference concentration 5) at
  pH 6, concentration 5, time 30, no competition: the kinetic factor \<open>1 - e\<^sup>-\<^sup>5\<^sup>.\<^sup>4\<close> lies
  between 0.9954 and 0.9955, the pH factor \<open>1 / (1 + e\<^sup>-\<^sup>2\<^sup>.\<^sup>2\<^sup>5)\<close> between 0.9046 and 0.9047,
  the concentration factor is 1, the raw removal (synergy added) lies between 91.99 and 92,
  and the call returns mean 91.99 and std 2.01.
\<close>

theorem predictRemoval_scenario:
  "num_lt (Num 0.9954) (kinetic (Own MNCJG_r) 30) \<and> num_lt (kinetic (Own MNCJG_r) 30) (Num 0.9955)
   \<and> num_lt (Num 0.9046) (phEffect (Own Cd_r) 6) \<and> num_lt (phEffect (Own Cd_r) 6) (Num 0.9047)
   \<and> concEffect (Own MNCJG_r) (Own Cd_r) 5 = Num 1
   \<and> num_lt (Num 91.99) (removal_raw (Own MNCJG_r) (Own Cd_r) 6 5 30 False + fld synergy (Own MNCJG_r))
   \<and> num_lt (removal_raw (Own MNCJG_r) (Own Cd_r) 6 5 30 False + fld synergy (Own MNCJG_r)) (Num 92)
   \<and> MODEL_PARAMS ''MNCJG'' = Some (Own MNCJG_r) \<and> POLLUTANT_MOD ''Cd(II)'' = Some (Own Cd_r)
   \<and> predictRemoval ''MNCJG'' ''Cd(II)'' 6 5 30 False = \<lparr>mean = Num 91.99, std = Num 2.01\<rparr>"
proof -
  have k: "0.9954 < kinetic_r MNCJG_r 30" "kinetic_r MNCJG_r 30 < 0.9955"
    using kinetic_MNCJG_30 by simp_all
  have f: "0.9046 < phEffect_r Cd_r 6" "phEffect_r Cd_r 6 < 0.9047"
    using phEffect_Cd_6 by simp_all
  have "removal_raw (Own MNCJG_r) (Own Cd_r) 6 5 30 False + fld synergy (Own MNCJG_r)
          = Num (raw_r MNCJG_r Cd_r 6 5 30 False)"
    by (simp add: removal_raw_def raw_r_def compPenalty_def)
  moreover have "91.99 < raw_r MNCJG_r Cd_r 6 5 30 False" "raw_r MNCJG_r Cd_r 6 5 30 False < 92"
    using raw_MNCJG_Cd_6_5_30 by simp_all
  ultimately have r:
    "num_lt (Num 91.99) (removal_raw (Own MNCJG_r) (Own Cd_r) 6 5 30 False + fld synergy (Own MNCJG_r))"
    "num_lt (removal_raw (Own MNCJG_r) (Own Cd_r) 6 5 30 False + fld synergy (Own MNCJG_r)) (Num 92)"
    by simp_all
  have c: "concEffect (Own MNCJG_r) (Own Cd_r) 5 = Num 1"
    by (simp add: concEffect_MNCJG_Cd_5)
  have p: "predictRemoval ''MNCJG'' ''Cd(II)'' 6 5 30 False = \<lparr>mean = Num 91.99, std = Num 2.01\<rparr>"
    by (simp add: predictRemoval_Own [OF MODEL_PARAMS_MNCJG POLLUTANT_MOD_Cd]
        mean_MNCJG_Cd_6_5_30 std_MNCJG_6_30)
  show ?thesis
    using k f c r p MODEL_PARAMS_MNCJG POLLUTANT_MOD_Cd by simp
qed

text \<open>
  C2 as the specification states it fails: the returned mean is not within 0.05 of 95.0
  (it is below 94.95), and the pH factor is not about 0.9909 (it is below 0.99).
\<close>

theorem predictRemoval_scenario_counterexample:
  "\<not> num_le (Num 94.95) (mean (predictRemoval ''MNCJG'' ''Cd(II)'' 6 5 30 False))
   \<and> \<not> num_le (Num 0.99) (phEffect (Own Cd_r) 6)"
proof -
  have "phEffect_r Cd_r 6 < 0.99"
    using phEffect_Cd_6 by simp
  then show ?thesis
    by (simp add: predictRemoval_Own [OF MODEL_PARAMS_MNCJG POLLUTANT_MOD_Cd]
        mean_MNCJG_Cd_6_5_30)
qed

section \<open>Properties of the kinetic factor in double arithmetic\<close>

lemma round_half_even_error: "\<bar>of_int (round_half_even z) - z\<bar> \<le> 1/2"
proof -
  have "of_int \<lfloor>z\<rfloor> \<le> z" "z < of_int \<lfloor>z\<rfloor> + 1" by linarith+
  then show ?thesis
    unfolding round_half_even_def Let_def by (auto split: if_splits)
qed

lemma round_half_even_nonneg: "0 \<le> z \<Longrightarrow> 0 \<le> round_half_even z"
  unfolding round_half_even_def Let_def by (auto split: if_splits)

lemma double_ulp_pos: "0 < double_ulp x"
  by (simp add: double_ulp_def)

lemma double_round_nonneg: "0 \<le> x \<Longrightarrow> 0 \<le> double_round x"
  using double_ulp_pos [of x]
  by (simp add: double_round_def round_half_even_nonneg less_imp_le)

lemma double_ulp_le:
  assumes "x \<noteq> 0" and "\<bar>x\<bar> \<le> 2 powr of_int b" and "- 1022 \<le> b"
  shows "double_ulp x \<le> 2 powr (of_int b - 52)"
proof -
  have "log 2 \<bar>x\<bar> \<le> of_int b"
    using assms(1,2) by (simp add: log_le_iff)
  then have "\<lfloor>log 2 \<bar>x\<bar>\<rfloor> \<le> b" by (simp add: floor_le_iff)
  then have "max \<lfloor>log 2 \<bar>x\<bar>\<rfloor> (- 1022) \<le> b" using assms(3) by simp
  then have "real_of_int (max \<lfloor>log 2 \<bar>x\<bar>\<rfloor> (- 1022)) - 52 \<le> of_int b - 52" by simp
  then show ?thesis unfolding double_ulp_def by (intro powr_mono) simp_all
qed

lemma double_round_error:
  assumes "\<bar>x\<bar> \<le> 2 powr of_int b" and "- 1022 \<le> b"
  shows "\<bar>double_round x - x\<bar> \<le> 2 powr (of_int b - 53)"
proof (cases "x = 0")
  case True then show ?thesis by (simp add: double_round_def)
next
  case False
  define u where "u = double_ulp x"
  have u: "0 < u" "u \<le> 2 powr (of_int b - 52)"
    using double_ulp_pos double_ulp_le [OF False assms] by (simp_all add: u_def)
  have "double_round x - x = (of_int (round_half_even (x / u)) - x / u) * u"
    using False u(1) by (simp add: double_round_def u_def algebra_simps)
  then have "\<bar>double_round x - x\<bar> = \<bar>of_int (round_half_even (x / u)) - x / u\<bar> * u"
    using u(1) by (simp add: abs_mult)
  also have "\<dots> \<le> 1/2 * u"
    using round_half_even_error [of "x / u"] u(1) by (intro mult_right_mono) simp_all
  also have "\<dots> \<le> 1/2 * 2 powr (of_int b - 52)" using u(2) by simp
  also have "\<dots> = 2 powr (of_int b - 53)"
  proof -
    have "(2::real) powr (of_int b - 52) = 2 powr ((of_int b - 53) + 1)" by simp
    also have "\<dots> = 2 powr (of_int b - 53) * 2 powr 1" by (rule powr_add)
    finally show ?thesis by simp
  qed
  finally show ?thesis .
qed

lemma double_round_one:
  assumes "1 - 1 / 2 ^ 55 \<le> x" and "x \<le> 1"
  shows "double_round x = 1"
proof (cases "x = 1")
  case True
  have u: "double_ulp 1 = 1 / 4503599627370496"
    by (simp add: double_ulp_def powr_neg_numeral)
  have "\<lfloor>4503599627370496 :: real\<rfloor> = 4503599627370496" by (simp add: floor_eq_iff)
  then have r: "round_half_even 4503599627370496 = 4503599627370496"
    by (simp add: round_half_even_def Let_def)
  have "of_int (round_half_even (1 / double_ulp 1)) * double_ulp 1 = 1"
    unfolding u by (simp add: r)
  then show ?thesis using True by (simp add: double_round_def)
next
  case False
  with assms have x: "x < 1" "1/2 \<le> x" "0 < x" by simp_all
  have "\<lfloor>log 2 \<bar>x\<bar>\<rfloor> = - 1"
    using x by (simp add: floor_log_eq_powr_iff powr_neg_numeral powr_minus_divide)
  then have u: "double_ulp x = 1 / 9007199254740992"
    by (simp add: double_ulp_def powr_neg_numeral)
  define z where "z = x * 9007199254740992"
  have z: "9007199254740992 - 1/4 \<le> z" "z < 9007199254740992"
    using assms(1) x(1) by (simp_all add: z_def field_simps)
  have f: "\<lfloor>z\<rfloor> = 9007199254740991"
    using z by (simp add: floor_eq_iff)
  have "1/2 < z - of_int \<lfloor>z\<rfloor>" using z f by simp
  then have r: "round_half_even z = 9007199254740992"
    using f by (simp add: round_half_even_def Let_def)
  have "x / double_ulp x = z" unfolding u z_def by simp
  then have "of_int (round_half_even (x / double_ulp x)) * double_ulp x = 1"
    unfolding u by (simp add: r)
  then show ?thesis
    using x(3) by (simp add: double_round_def)
qed

lemma max_double_ge: "1000 \<le> max_double"
  by (simp add: max_double_def)

lemma to_double_Some:
  assumes "\<bar>double_round x\<bar> \<le> 1000"
  shows "to_double x = Some (double_round x)"
  using assms max_double_ge by (simp add: to_double_def Let_def)

lemma exp_46: "2 ^ 60 \<le> exp (46 :: real)"
proof -
  have "1 + 1 + 1\<^sup>2 / 2 \<le> exp (1 :: real)"
    by (rule exp_lower_Taylor_quadratic) simp
  then have "5 / 2 \<le> exp (1 :: real)" by simp
  then have "(5 / 2) ^ 46 \<le> exp (1 :: real) ^ 46" by (intro power_mono) simp_all
  moreover have "exp (1 :: real) ^ 46 = exp 46"
    using exp_of_nat_mult [of 46 "1 :: real"] by simp
  moreover have "(2 :: real) ^ 60 \<le> (5 / 2) ^ 46" by (simp add: power_divide)
  ultimately show ?thesis by linarith
qed

lemma kinetic_double_saturates:
  assumes "280 \<le> t" and "t \<le> 1000"
  shows "kinetic_double MNCJG_r t = Some 1"
proof -
  define k where "k = double_round (timeK MNCJG_r)"
  define a where "a = double_round (- k * t)"
  define e where "e = double_round (exp a)"
  have "\<bar>timeK MNCJG_r\<bar> \<le> 2 powr of_int 0" by (simp add: MNCJG_r_def)
  then have "\<bar>k - timeK MNCJG_r\<bar> \<le> 2 powr (of_int 0 - 53)"
    unfolding k_def by (rule double_round_error) simp
  then have "\<bar>k - 18 / 100\<bar> \<le> 1 / 2 ^ 53"
    by (simp add: MNCJG_r_def powr_neg_numeral)
  moreover have "(1 :: real) / 2 ^ 53 \<le> 1 / 100" by simp
  ultimately have k: "17 / 100 \<le> k" "k \<le> 19 / 100" by linarith+
  have kt: "- 190 \<le> - k * t" "- k * t \<le> - 47"
  proof -
    have "k * t \<le> 19 / 100 * 1000" using k assms by (intro mult_mono) simp_all
    then show "- 190 \<le> - k * t" by simp
    have "17 / 100 * 280 \<le> k * t" using k assms by (intro mult_mono) simp_all
    then show "- k * t \<le> - 47" by simp
  qed
  then have "\<bar>- k * t\<bar> \<le> 2 powr of_int 8" by (simp add: abs_le_iff)
  then have "\<bar>a - (- k * t)\<bar> \<le> 2 powr (of_int 8 - 53)"
    unfolding a_def by (rule double_round_error) simp
  then have "\<bar>a - (- k * t)\<bar> \<le> 1 / 2 ^ 45" by (simp add: powr_neg_numeral)
  moreover have "(1 :: real) / 2 ^ 45 \<le> 1" by simp
  ultimately have a: "- 191 \<le> a" "a \<le> - 46" using kt by linarith+
  have "exp a \<le> exp (- 46)" using a by simp
  also have "\<dots> = 1 / exp 46" by (simp add: exp_minus inverse_eq_divide)
  also have "\<dots> \<le> 1 / 2 ^ 60" using exp_46 by (intro divide_left_mono) simp_all
  finally have ea: "exp a \<le> 1 / 2 ^ 60" .
  then have "\<bar>exp a\<bar> \<le> 2 powr of_int (- 60)" by (simp add: powr_neg_numeral)
  then have "\<bar>e - exp a\<bar> \<le> 2 powr (of_int (- 60) - 53)"
    unfolding e_def by (rule double_round_error) simp
  then have "\<bar>e - exp a\<bar> \<le> 1 / 2 ^ 113" by (simp add: powr_neg_numeral)
  then have "e \<le> 1 / 2 ^ 60 + 1 / 2 ^ 113" using ea by linarith
  moreover have "(1 :: real) / 2 ^ 60 + 1 / 2 ^ 113 \<le> 1 / 2 ^ 55" by simp
  ultimately have e1: "e \<le> 1 / 2 ^ 55" by linarith
  have e0: "0 \<le> e" unfolding e_def by (rule double_round_nonneg) simp
  have one: "double_round (1 - e) = 1"
    using e0 e1 by (intro double_round_one) simp_all
  have "to_double (timeK MNCJG_r) = Some k"
    unfolding k_def using k by (intro to_double_Some) (simp add: k_def)
  moreover have "to_double (- k * t) = Some a"
    unfolding a_def using a by (intro to_double_Some) (simp add: a_def)
  moreover have "to_double (exp a) = Some e"
    unfolding e_def using e0 e1 by (intro to_double_Some) (simp add: e_def)
  moreover have "to_double (1 - e) = Some 1"
    using to_double_Some [of "1 - e"] by (simp add: one)
  ultimately show ?thesis by (simp add: kinetic_double_def)
qed

lemma round_half_even_cases:
  "round_half_even z = \<lfloor>z\<rfloor> \<or> round_half_even z = \<lfloor>z\<rfloor> + 1"
  unfolding round_half_even_def Let_def by simp

lemma round_half_even_of_int [simp]: "round_half_even (of_int n) = n"
  unfolding round_half_even_def Let_def by simp

lemma round_half_even_mono:
  assumes "z1 \<le> z2" shows "round_half_even z1 \<le> round_half_even z2"
proof (cases "\<lfloor>z1\<rfloor> = \<lfloor>z2\<rfloor>")
  case True
  then show ?thesis
    using assms unfolding round_half_even_def Let_def by (auto split: if_splits)
next
  case False
  then have "\<lfloor>z1\<rfloor> + 1 \<le> \<lfloor>z2\<rfloor>" using floor_mono [OF assms] by linarith
  moreover have "round_half_even z1 \<le> \<lfloor>z1\<rfloor> + 1"
    using round_half_even_cases [of z1] by linarith
  moreover have "\<lfloor>z2\<rfloor> \<le> round_half_even z2"
    using round_half_even_cases [of z2] by linarith
  ultimately show ?thesis by linarith
qed

lemma round_half_even_minus: "round_half_even (- z) = - round_half_even z"
proof (cases "z = of_int \<lfloor>z\<rfloor>")
  case True
  define n where "n = \<lfloor>z\<rfloor>"
  have z: "z = of_int n" using True by (simp add: n_def)
  have "round_half_even (of_int (- n)) = - n" by (rule round_half_even_of_int)
  then show ?thesis unfolding z by simp
next
  case False
  then have lt: "of_int \<lfloor>z\<rfloor> < z" "z < of_int \<lfloor>z\<rfloor> + 1" by linarith+
  have "of_int (- \<lfloor>z\<rfloor> - 1) \<le> - z" "- z < of_int (- \<lfloor>z\<rfloor> - 1) + 1"
    using lt by linarith+
  then have f: "\<lfloor>- z\<rfloor> = - \<lfloor>z\<rfloor> - 1" by (simp only: floor_eq_iff)
  show ?thesis
    unfolding round_half_even_def Let_def f using lt by (auto split: if_splits)
qed

lemma double_ulp_exponent: "double_ulp x = 2 powr (of_int (double_exponent x) - 52)"
  by (simp add: double_ulp_def double_exponent_def)

lemma double_round_minus: "double_round (- x) = - double_round x"
  by (simp add: double_round_def double_ulp_def round_half_even_minus)

lemma double_exponent_mono:
  assumes "0 < x" "x \<le> y" shows "double_exponent x \<le> double_exponent y"
proof -
  have "log 2 x \<le> log 2 y" using assms by simp
  then have "\<lfloor>log 2 x\<rfloor> \<le> \<lfloor>log 2 y\<rfloor>" by (rule floor_mono)
  then show ?thesis using assms by (simp add: double_exponent_def)
qed

lemma below_next_binade:
  assumes "0 < x" shows "x < 2 powr (of_int (double_exponent x) + 1)"
proof -
  have "log 2 x < of_int \<lfloor>log 2 x\<rfloor> + 1" by linarith
  also have "\<dots> \<le> of_int (double_exponent x) + 1"
    using assms by (simp add: double_exponent_def)
  finally have "log 2 x < of_int (double_exponent x) + 1" .
  then show ?thesis using assms by (simp add: log_less_iff)
qed

lemma double_round_le_next_binade:
  assumes "0 < x" shows "double_round x \<le> 2 powr (of_int (double_exponent x) + 1)"
proof -
  define u where "u = double_ulp x"
  have u: "0 < u" "u = 2 powr (of_int (double_exponent x) - 52)"
    by (simp_all add: u_def double_ulp_pos double_ulp_exponent)
  have p: "2 powr (of_int (double_exponent x) + 1) = 2 ^ 53 * u"
  proof -
    have "of_int (double_exponent x) + 1 = 53 + (real_of_int (double_exponent x) - 52)"
      by simp
    then have "(2::real) powr (of_int (double_exponent x) + 1)
        = 2 powr (53 + (of_int (double_exponent x) - 52))"
      by (simp only:)
    also have "\<dots> = 2 powr 53 * 2 powr (of_int (double_exponent x) - 52)" by (rule powr_add)
    finally show ?thesis by (simp add: u(2))
  qed
  have "x / u \<le> 2 ^ 53"
    using below_next_binade [OF assms] u(1) unfolding p by (simp add: field_simps)
  then have "round_half_even (x / u) \<le> round_half_even (2 ^ 53)" by (rule round_half_even_mono)
  moreover have "round_half_even (2 ^ 53) = 2 ^ 53"
    using round_half_even_of_int [of "2 ^ 53"] by simp
  ultimately have "real_of_int (round_half_even (x / u)) \<le> 2 ^ 53"
    by (metis of_int_le_iff of_int_numeral of_int_power)
  then have "real_of_int (round_half_even (x / u)) * u \<le> 2 ^ 53 * u"
    using u(1) by (intro mult_right_mono) simp_all
  then show ?thesis using assms unfolding p by (simp add: double_round_def u_def)
qed

lemma double_round_ge_binade:
  assumes "0 < y" and "- 1022 < double_exponent y"
  shows "2 powr of_int (double_exponent y) \<le> double_round y"
proof -
  define u where "u = double_ulp y"
  have u: "0 < u" "u = 2 powr (of_int (double_exponent y) - 52)"
    by (simp_all add: u_def double_ulp_pos double_ulp_exponent)
  have e: "double_exponent y = \<lfloor>log 2 y\<rfloor>"
    using assms by (simp add: double_exponent_def split: if_splits)
  have p: "2 powr of_int (double_exponent y) = 2 ^ 52 * u"
  proof -
    have "of_int (double_exponent y) = 52 + (real_of_int (double_exponent y) - 52)"
      by simp
    then have "(2::real) powr of_int (double_exponent y)
        = 2 powr (52 + (of_int (double_exponent y) - 52))"
      by (simp only:)
    also have "\<dots> = 2 powr 52 * 2 powr (of_int (double_exponent y) - 52)" by (rule powr_add)
    finally show ?thesis by (simp add: u(2))
  qed
  have "of_int \<lfloor>log 2 y\<rfloor> \<le> log 2 y" by linarith
  then have "2 powr of_int \<lfloor>log 2 y\<rfloor> \<le> y"
    using assms(1) by (simp only: le_log_iff [of 2 y, symmetric, simplified])
  then have "2 powr of_int (double_exponent y) \<le> y"
    by (simp only: e)
  then have "2 ^ 52 \<le> y / u" using u(1) unfolding p by (simp add: field_simps)
  then have "round_half_even (2 ^ 52) \<le> round_half_even (y / u)" by (rule round_half_even_mono)
  moreover have "round_half_even (2 ^ 52) = 2 ^ 52"
    using round_half_even_of_int [of "2 ^ 52"] by simp
  ultimately have "2 ^ 52 \<le> real_of_int (round_half_even (y / u))"
    by (metis of_int_le_iff of_int_numeral of_int_power)
  then have "2 ^ 52 * u \<le> real_of_int (round_half_even (y / u)) * u"
    using u(1) by (intro mult_right_mono) simp_all
  then show ?thesis using assms(1) unfolding p by (simp add: double_round_def u_def)
qed

lemma double_round_mono_pos:
  assumes "0 < x" and "x \<le> y" shows "double_round x \<le> double_round y"
proof (cases "double_exponent x = double_exponent y")
  case True
  then have u: "double_ulp x = double_ulp y" by (simp add: double_ulp_exponent)
  have "x / double_ulp y \<le> y / double_ulp y"
    using assms(2) double_ulp_pos [of y] by (simp add: divide_right_mono)
  then have "round_half_even (x / double_ulp y) \<le> round_half_even (y / double_ulp y)"
    by (rule round_half_even_mono)
  then have "real_of_int (round_half_even (x / double_ulp y)) * double_ulp y
      \<le> real_of_int (round_half_even (y / double_ulp y)) * double_ulp y"
    using double_ulp_pos [of y] by (intro mult_right_mono) simp_all
  then show ?thesis using assms by (simp add: double_round_def u)
next
  case False
  have y: "0 < y" using assms by simp
  have lt: "double_exponent x < double_exponent y"
    using False double_exponent_mono [OF assms] by simp
  moreover have "- 1022 \<le> double_exponent x" by (simp add: double_exponent_def)
  ultimately have "- 1022 < double_exponent y" by simp
  then have "2 powr of_int (double_exponent y) \<le> double_round y"
    using y by (intro double_round_ge_binade)
  moreover have "double_round x \<le> 2 powr (of_int (double_exponent x) + 1)"
    using assms(1) by (rule double_round_le_next_binade)
  moreover have "2 powr (of_int (double_exponent x) + 1) \<le> (2::real) powr of_int (double_exponent y)"
    using lt by (intro powr_mono) simp_all
  ultimately show ?thesis by linarith
qed

lemma double_round_mono:
  assumes "x \<le> y" shows "double_round x \<le> double_round y"
proof -
  consider "0 < x" | "x \<le> 0" "0 \<le> y" | "y < 0" using assms by linarith
  then show ?thesis
  proof cases
    case 1 then show ?thesis using assms by (rule double_round_mono_pos)
  next
    case 2
    have "0 \<le> double_round y" using 2(2) by (rule double_round_nonneg)
    moreover have "0 \<le> double_round (- x)" using 2(1) by (intro double_round_nonneg) simp
    ultimately show ?thesis by (simp add: double_round_minus)
  next
    case 3
    then have "double_round (- y) \<le> double_round (- x)"
      using assms by (intro double_round_mono_pos) simp_all
    then show ?thesis by (simp add: double_round_minus)
  qed
qed


lemma double_round_max_double: "double_round max_double = max_double"
proof -
  have m: "max_double = 9007199254740991 * 2 ^ 971" by (simp add: max_double_def)
  have pos: "0 < max_double" unfolding m by simp
  have "(2::real) powr 1023 \<le> max_double" "max_double < 2 powr (1023 + 1)"
    unfolding m by simp_all
  then have "\<lfloor>log 2 max_double\<rfloor> = 1023"
    using pos floor_log_eq_powr_iff [of max_double 2 1023] by simp
  then have "double_ulp max_double = 2 powr 971"
    using pos by (simp add: double_ulp_def)
  then have u: "double_ulp max_double = 2 ^ 971" by simp
  have q: "max_double / 2 ^ 971 = of_int 9007199254740991"
    by (simp add: m)
  have "round_half_even (max_double / double_ulp max_double) = 9007199254740991"
    by (simp only: u q round_half_even_of_int)
  then have "double_round max_double = of_int 9007199254740991 * double_ulp max_double"
    using pos by (simp add: double_round_def)
  also have "\<dots> = max_double" by (simp only: u) (simp add: m)
  finally show ?thesis .
qed

lemma to_double_in_range:
  assumes "- max_double \<le> x" and "x \<le> max_double"
  shows "to_double x = Some (double_round x)"
proof -
  have "double_round x \<le> max_double"
    using double_round_mono [OF assms(2)] by (simp add: double_round_max_double)
  moreover have "- max_double \<le> double_round x"
    using double_round_mono [OF assms(1)] by (simp add: double_round_minus double_round_max_double)
  ultimately show ?thesis by (simp add: to_double_def Let_def abs_le_iff)
qed

lemma double_round_unit_interval:
  assumes "0 \<le> x" and "x \<le> 1" shows "0 \<le> double_round x" "double_round x \<le> 1"
proof -
  show "0 \<le> double_round x" using assms(1) by (rule double_round_nonneg)
  have "double_round 1 = 1" by (rule double_round_one) simp_all
  then show "double_round x \<le> 1" using double_round_mono [OF assms(2)] by simp
qed

lemma timeK_le_1:
  assumes "MODEL_PARAMS a = Some (Own m)" shows "timeK m \<le> 1"
  using MODEL_PARAMS_Own_cases [OF assms] by (auto simp: MODEL_PARAMS_own_def)

lemma one_le_max_double: "1 \<le> max_double"
  by (simp add: max_double_def)

lemma kinetic_double_value:
  assumes "MODEL_PARAMS a = Some (Own m)" and "0 \<le> t" and "t \<le> max_double"
  shows "kinetic_double m t
     = Some (double_round (1 - double_round (exp (double_round (- double_round (timeK m) * t)))))"
    and "0 \<le> double_round (timeK m)"
proof -
  define k where "k = double_round (timeK m)"
  define x where "x = - k * t"
  define e where "e = double_round (exp (double_round x))"
  have tk: "0 \<le> timeK m" "timeK m \<le> 1"
    using material_positive(2) [OF assms(1)] timeK_le_1 [OF assms(1)] by simp_all
  have k: "0 \<le> k" "k \<le> 1" unfolding k_def using tk by (rule double_round_unit_interval)+
  show "0 \<le> double_round (timeK m)" using k(1) by (simp add: k_def)
  have "k * t \<le> 1 * max_double" using k assms(2,3) by (intro mult_mono) simp_all
  moreover have "0 \<le> k * t" using k assms(2) by simp
  ultimately have x: "- max_double \<le> x" "x \<le> 0" by (simp_all add: x_def)
  have m: "0 \<le> max_double" using one_le_max_double by simp
  have "double_round x \<le> double_round 0" using x(2) by (rule double_round_mono)
  then have a: "double_round x \<le> 0" by (simp add: double_round_def)
  then have ex: "0 \<le> exp (double_round x)" "exp (double_round x) \<le> 1" by simp_all
  have e: "0 \<le> e" "e \<le> 1" unfolding e_def using ex by (rule double_round_unit_interval)+
  have "to_double (timeK m) = Some k"
    unfolding k_def using tk one_le_max_double by (intro to_double_in_range) simp_all
  moreover have "to_double (- k * t) = Some (double_round x)"
    using x m by (simp only: x_def [symmetric]) (intro to_double_in_range, simp_all)
  moreover have "to_double (exp (double_round x)) = Some e"
  proof -
    have "- max_double \<le> exp (double_round x)" "exp (double_round x) \<le> max_double"
      using ex one_le_max_double by linarith+
    then show ?thesis unfolding e_def by (rule to_double_in_range)
  qed
  moreover have "to_double (1 - e) = Some (double_round (1 - e))"
    using e one_le_max_double by (intro to_double_in_range) simp_all
  ultimately show "kinetic_double m t
     = Some (double_round (1 - double_round (exp (double_round (- double_round (timeK m) * t)))))"
    by (simp add: kinetic_double_def k_def x_def e_def)
qed

text \<open>
  C7 as the specification states it fails: for \<^verbatim>\<open>MNCJG\<close> and the contact times \<open>300 < 400\<close>
  the program computes the same kinetic factor, exactly \<open>1\<close>, so the factor at \<open>300\<close> is not
  strictly below the one at \<open>400\<close>. (\<open>e\<^sup>-\<^sup>5\<^sup>4\<close> is below half the distance from \<open>1\<close> to the next
  double below it, and \<open>1 - e\<^sup>-\<^sup>5\<^sup>4\<close> rounds to \<open>1\<close>.)
\<close>

theorem kinetic_not_strictly_increasing_counterexample:
  "MODEL_PARAMS ''MNCJG'' = Some (Own MNCJG_r)
   \<and> kinetic_double MNCJG_r 300 = Some 1
   \<and> kinetic_double MNCJG_r 400 = Some 1"
  using kinetic_double_saturates [of 300] kinetic_double_saturates [of 400] MODEL_PARAMS_MNCJG
  by simp

text \<open>
  The weak order survives the rounding. Rounding to the nearest double is monotone, the
  exponential is, and so the kinetic factor of a registered material, computed in doubles, never
  decreases as the contact time grows: at every contact time between \<open>0\<close> and the largest
  double it is a number, and a later time gives a factor that is at least as large.
\<close>

lemma kinetic_double_mono:
  assumes "MODEL_PARAMS a = Some (Own m)" and "0 \<le> t1" and "t1 \<le> t2" and "t2 \<le> max_double"
  shows "\<exists>v1 v2. kinetic_double m t1 = Some v1 \<and> kinetic_double m t2 = Some v2 \<and> v1 \<le> v2"
proof -
  define k where "k = double_round (timeK m)"
  have t1: "t1 \<le> max_double" and t2: "0 \<le> t2" using assms by simp_all
  have k: "0 \<le> k" unfolding k_def using kinetic_double_value(2) [OF assms(1,2) t1] .
  have "- k * t2 \<le> - k * t1" using k assms(3) by (simp add: mult_left_mono)
  then have "double_round (- k * t2) \<le> double_round (- k * t1)" by (rule double_round_mono)
  then have "exp (double_round (- k * t2)) \<le> exp (double_round (- k * t1))" by simp
  then have "double_round (exp (double_round (- k * t2)))
      \<le> double_round (exp (double_round (- k * t1)))" by (rule double_round_mono)
  then have "1 - double_round (exp (double_round (- k * t1)))
      \<le> 1 - double_round (exp (double_round (- k * t2)))" by simp
  then have "double_round (1 - double_round (exp (double_round (- k * t1))))
      \<le> double_round (1 - double_round (exp (double_round (- k * t2))))"
    by (rule double_round_mono)
  then show ?thesis
    unfolding k_def
    using kinetic_double_value(1) [OF assms(1,2) t1] kinetic_double_value(1) [OF assms(1) t2 assms(4)]
    by simp
qed
section \<open>Properties of \<^verbatim>\<open>bayesianOptimize\<close>\<close>

lemma bo_body_eq:
  "bo_body rnd pollutant adsorbent targetRemoval phRange timeRange concRange i st =
     record_trial (trial_entry rnd pollutant adsorbent targetRemoval phRange timeRange concRange i)
       (trial_score rnd pollutant adsorbent targetRemoval phRange timeRange concRange i) st"
  by (simp add: bo_body_def record_trial_def trial_entry_def trial_score_def trial_pred_def
      trial_pH_def trial_time_def trial_conc_def acquisition_def sample_params_def Let_def)

lemma sample_params_trial_entry:
  "sample_params (trial_entry rnd pollutant adsorbent targetRemoval phRange timeRange concRange i)
     = trial_params rnd pollutant adsorbent phRange timeRange concRange i"
  by (simp add: sample_params_def trial_entry_def trial_params_def)

lemma bo_loop_run:
  assumes "st = run (trial_entry rnd pollutant adsorbent targetRemoval phRange timeRange concRange)
                  (trial_score rnd pollutant adsorbent targetRemoval phRange timeRange concRange) i"
    and "i \<le> nat nIter"
  shows "bo_loop rnd pollutant adsorbent targetRemoval phRange timeRange concRange nIter i st
           = run (trial_entry rnd pollutant adsorbent targetRemoval phRange timeRange concRange)
               (trial_score rnd pollutant adsorbent targetRemoval phRange timeRange concRange)
               (nat nIter)"
  using assms
proof (induction rnd pollutant adsorbent targetRemoval phRange timeRange concRange nIter i st
    rule: bo_loop.induct)
  case (1 rnd pollutant adsorbent targetRemoval phRange timeRange concRange nIter i st)
  show ?case
  proof (cases "int i < nIter")
    case True
    then have "Suc i \<le> nat nIter" by simp
    moreover have "bo_body rnd pollutant adsorbent targetRemoval phRange timeRange concRange i st
        = run (trial_entry rnd pollutant adsorbent targetRemoval phRange timeRange concRange)
              (trial_score rnd pollutant adsorbent targetRemoval phRange timeRange concRange) (Suc i)"
      by (simp add: bo_body_eq "1.prems"(1))
    ultimately show ?thesis
      using True "1.IH" [OF True] by (subst bo_loop.simps) simp
  next
    case False
    with "1.prems"(2) have "i = nat nIter" by simp
    with False "1.prems"(1) show ?thesis by (subst bo_loop.simps) simp
  qed
qed

lemma bayesianOptimize_run:
  "bayesianOptimize rnd pollutant adsorbent targetRemoval phRange timeRange concRange nIter =
     (let st = run (trial_entry rnd pollutant adsorbent targetRemoval phRange timeRange concRange)
                 (trial_score rnd pollutant adsorbent targetRemoval phRange timeRange concRange)
                 (nat nIter)
      in \<lparr>best = bestParams st, history = hist st\<rparr>)"
  unfolding bayesianOptimize_def
  by (subst bo_loop_run) simp_all

lemma hist_run: "hist (run e s n) = map e [0..<n]"
  by (induction n) (simp_all add: record_trial_def Let_def)

lemma best_index_less: "best_index s n = Some k \<Longrightarrow> k < n"
  by (induction n arbitrary: k) (auto split: option.splits if_splits simp: less_Suc_eq)

lemma best_index_Num: "best_index s n = Some k \<Longrightarrow> \<exists>v. s k = Num v"
proof (induction n arbitrary: k)
  case 0 then show ?case by simp
next
  case (Suc n)
  then show ?case
    by (cases "s n"; cases "s k") (auto split: option.splits if_splits)
qed

lemma best_index_None: "best_index s n = None \<longleftrightarrow> (\<forall>j<n. s j = NaN)"
  by (induction n) (auto split: option.splits if_splits simp: less_Suc_eq)

lemma num_lt_trans_not:
  assumes "\<not> num_lt a b" "num_lt a c" "a \<noteq> NaN" shows "\<not> num_lt c b"
  using assms by (cases a; cases b; cases c) simp_all

lemma best_index_max: "best_index s n = Some k \<Longrightarrow> j < n \<Longrightarrow> \<not> num_lt (s k) (s j)"
proof (induction n arbitrary: k)
  case 0 then show ?case by simp
next
  case (Suc n)
  show ?case
  proof (cases "best_index s n")
    case None
    then have nan: "\<forall>i<n. s i = NaN" by (simp add: best_index_None)
    from None Suc.prems(1) have k: "k = n" by (simp split: if_splits)
    show ?thesis
    proof (cases "j = n")
      case True with k show ?thesis by (cases "s n") simp_all
    next
      case False
      with Suc.prems(2) have "j < n" by simp
      with nan have "s j = NaN" by simp
      then show ?thesis by (cases "s k") simp_all
    qed
  next
    case (Some k')
    obtain v where v: "s k' = Num v" using best_index_Num [OF Some] by blast
    show ?thesis
    proof (cases "num_lt (s k') (s n)")
      case True
      with Some Suc.prems(1) have k: "k = n" by simp
      show ?thesis
      proof (cases "j = n")
        case True with k show ?thesis by (cases "s n") simp_all
      next
        case False
        with Suc.prems(2) have "j < n" by simp
        then have "\<not> num_lt (s k') (s j)" using Suc.IH [OF Some] by simp
        with True v show ?thesis unfolding k by (intro num_lt_trans_not [of "s k'" "s j" "s n"]) simp_all
      qed
    next
      case False
      with Some Suc.prems(1) have k: "k = k'" by simp
      show ?thesis
      proof (cases "j = n")
        case True with False k show ?thesis by simp
      next
        case False
        with Suc.prems(2) have "j < n" by simp
        then show ?thesis using Suc.IH [OF Some] k by simp
      qed
    qed
  qed
qed

lemma best_index_first: "best_index s n = Some k \<Longrightarrow> j < k \<Longrightarrow> \<not> num_le (s k) (s j)"
proof (induction n arbitrary: k)
  case 0 then show ?case by simp
next
  case (Suc n)
  show ?case
  proof (cases "best_index s n")
    case None
    then have nan: "\<forall>i<n. s i = NaN" by (simp add: best_index_None)
    from None Suc.prems(1) have k: "k = n" by (simp split: if_splits)
    with Suc.prems(2) nan have "s j = NaN" by simp
    then show ?thesis by (cases "s k") simp_all
  next
    case (Some k')
    obtain v where v: "s k' = Num v" using best_index_Num [OF Some] by blast
    have k'n: "k' < n" using best_index_less [OF Some] .
    show ?thesis
    proof (cases "num_lt (s k') (s n)")
      case True
      with Some Suc.prems(1) have k: "k = n" by simp
      from Suc.prems(2) k have jn: "j < n" by simp
      have "\<not> num_lt (s k') (s j)" using best_index_max [OF Some jn] .
      with True v show ?thesis unfolding k by (cases "s j"; cases "s n") auto
    next
      case False
      with Some Suc.prems(1) have k: "k = k'" by simp
      then show ?thesis using Suc.IH [OF Some] Suc.prems(2) by simp
    qed
  qed
qed

lemma run_best:
  "bestParams (run e s n) = map_option (\<lambda>k. sample_params (e k)) (best_index s n) \<and>
   bestScore (run e s n) = (case best_index s n of None \<Rightarrow> MinusInfinity | Some k \<Rightarrow> Score (s k))"
proof (induction n)
  case 0 then show ?case by simp
next
  case (Suc n)
  show ?case
  proof (cases "best_index s n")
    case None
    with Suc show ?thesis
      by (cases "s n") (simp_all add: record_trial_def Let_def)
  next
    case (Some k)
    obtain v where v: "s k = Num v" using best_index_Num [OF Some] by blast
    with Some Suc show ?thesis
      by (cases "s n") (simp_all add: record_trial_def Let_def)
  qed
qed

lemma map_iteration_upto: "map (\<lambda>i. int i + 1) [0..<n] = [1..int n]"
proof (induction n)
  case 0 then show ?case by simp
next
  case (Suc n)
  have "[1..int (Suc n)] = [1..int n] @ [int n + 1]"
    using upto_rec2 [of 1 "int n + 1"] by (simp add: add.commute)
  with Suc show ?case by simp
qed

lemma iteration_trial_entry [simp]:
  "iteration (trial_entry rnd pollutant adsorbent targetRemoval phRange timeRange concRange i) = int i + 1"
  by (simp add: trial_entry_def)

text \<open>
  Claim C6. For every call, the returned history has exactly \<open>nIter\<close> entries (none when
  \<open>nIter\<close> is negative), and their iteration indices, read in order, are \<open>1, 2, \<dots>, nIter\<close>.
\<close>

theorem history_length_and_indices:
  "length (history (bayesianOptimize rnd pollutant adsorbent targetRemoval phRange timeRange concRange nIter))
     = nat nIter
   \<and> map iteration
        (history (bayesianOptimize rnd pollutant adsorbent targetRemoval phRange timeRange concRange nIter))
     = [1..nIter]"
proof -
  have "map (\<lambda>i. int i + 1) [0..<nat nIter] = [1..nIter]"
  proof (cases "0 \<le> nIter")
    case True then show ?thesis by (simp add: map_iteration_upto)
  next
    case False then show ?thesis by simp
  qed
  then show ?thesis
    by (simp add: bayesianOptimize_run Let_def hist_run comp_def)
qed

lemma toFixed_real_mono:
  assumes "x \<le> y" shows "toFixed_real d x \<le> toFixed_real d y"
proof -
  have p: "(0::real) < 10 ^ d" by simp
  consider "y < 0" | "x < 0" "0 \<le> y" | "0 \<le> x" using assms by linarith
  then show ?thesis
  proof cases
    case 1
    with assms have "x < 0" by simp
    have "- y * 10 ^ d + 1/2 \<le> - x * 10 ^ d + 1/2" using assms p by simp
    then have "\<lfloor>- y * 10 ^ d + 1/2\<rfloor> \<le> \<lfloor>- x * 10 ^ d + 1/2\<rfloor>" by (rule floor_mono)
    then have "real_of_int \<lfloor>- y * 10 ^ d + 1/2\<rfloor> / 10 ^ d \<le> real_of_int \<lfloor>- x * 10 ^ d + 1/2\<rfloor> / 10 ^ d"
      using p by (simp add: divide_right_mono)
    with 1 \<open>x < 0\<close> show ?thesis by (simp add: toFixed_real_def)
  next
    case 2
    define A where "A = real_of_int \<lfloor>- x * 10 ^ d + 1/2\<rfloor> / 10 ^ d"
    define B where "B = real_of_int \<lfloor>y * 10 ^ d + 1/2\<rfloor> / 10 ^ d"
    have "0 \<le> (- x) * 10 ^ d" using 2(1) p by (intro mult_nonneg_nonneg) simp_all
    then have "0 \<le> - x * 10 ^ d + 1/2" by simp
    then have "0 \<le> \<lfloor>- x * 10 ^ d + 1/2\<rfloor>" by simp
    then have a: "0 \<le> A" unfolding A_def by simp
    have "0 \<le> y * 10 ^ d + 1/2" using 2(2) by simp
    then have "0 \<le> \<lfloor>y * 10 ^ d + 1/2\<rfloor>" by simp
    then have b: "0 \<le> B" unfolding B_def by simp
    have "toFixed_real d x = - A" "toFixed_real d y = B"
      unfolding A_def B_def toFixed_real_def using 2 by simp_all
    with a b show ?thesis by linarith
  next
    case 3
    with assms have "0 \<le> y" by simp
    have "x * 10 ^ d + 1/2 \<le> y * 10 ^ d + 1/2" using assms p by simp
    then have "\<lfloor>x * 10 ^ d + 1/2\<rfloor> \<le> \<lfloor>y * 10 ^ d + 1/2\<rfloor>" by (rule floor_mono)
    then have "real_of_int \<lfloor>x * 10 ^ d + 1/2\<rfloor> / 10 ^ d \<le> real_of_int \<lfloor>y * 10 ^ d + 1/2\<rfloor> / 10 ^ d"
      using p by (simp add: divide_right_mono)
    with 3 \<open>0 \<le> y\<close> show ?thesis by (simp add: toFixed_real_def)
  qed
qed

lemma toFixed_not_lt:
  assumes "\<not> num_lt a b" "a \<noteq> NaN" shows "\<not> num_lt (toFixed d a) (toFixed d b)"
proof (cases a)
  case (Num x)
  show ?thesis
  proof (cases b)
    case (Num y)
    with assms \<open>a = Num x\<close> have "y \<le> x" by simp
    then have "toFixed_real d y \<le> toFixed_real d x" by (rule toFixed_real_mono)
    with Num \<open>a = Num x\<close> show ?thesis by simp
  next
    case NaN then show ?thesis by (simp add: \<open>a = Num x\<close>)
  qed
next
  case NaN with assms show ?thesis by simp
qed

lemma bo_body_replaces_only_if_greater:
  "bestParams (bo_body rnd pollutant adsorbent targetRemoval phRange timeRange concRange i st)
     = bestParams st
   \<or> js_gt (trial_score rnd pollutant adsorbent targetRemoval phRange timeRange concRange i)
        (bestScore st)"
  by (simp add: bo_body_eq record_trial_def Let_def)

lemma best_is_history_entry:
  assumes "best (bayesianOptimize rnd pollutant adsorbent targetRemoval phRange timeRange concRange nIter)
             = Some b"
  shows "\<exists>k<nat nIter.
           best_index (trial_score rnd pollutant adsorbent targetRemoval phRange timeRange concRange)
             (nat nIter) = Some k
         \<and> b = sample_params (history (bayesianOptimize rnd pollutant adsorbent targetRemoval phRange
                   timeRange concRange nIter) ! k)
         \<and> history (bayesianOptimize rnd pollutant adsorbent targetRemoval phRange timeRange concRange
               nIter) ! k
             = trial_entry rnd pollutant adsorbent targetRemoval phRange timeRange concRange k"
proof -
  let ?e = "trial_entry rnd pollutant adsorbent targetRemoval phRange timeRange concRange"
  let ?s = "trial_score rnd pollutant adsorbent targetRemoval phRange timeRange concRange"
  from assms have "map_option (\<lambda>k. sample_params (?e k)) (best_index ?s (nat nIter)) = Some b"
    by (simp add: bayesianOptimize_run Let_def run_best)
  then obtain k where k: "best_index ?s (nat nIter) = Some k" "b = sample_params (?e k)"
    by auto
  have "k < nat nIter" using best_index_less [OF k(1)] .
  then show ?thesis
    using k by (auto simp: bayesianOptimize_run Let_def hist_run)
qed

text \<open>
  Claim C5, as the code has it. One iteration changes \<^verbatim>\<open>bestParams\<close> only if its acquisition
  score, before rounding, is strictly greater than \<^verbatim>\<open>bestScore\<close>. Hence a returned best that
  is not null is the entry of some trial \<open>k\<close> such that no trial has a greater acquisition
  score, no earlier trial has an acquisition score that is greater or equal (of the trials
  that tie, the one with the lowest index is retained), and no history entry has a greater
  recorded score. The recorded score is the acquisition score rounded to two decimals.
\<close>

theorem best_is_first_maximal_trial:
  assumes "best (bayesianOptimize rnd pollutant adsorbent targetRemoval phRange timeRange concRange nIter)
             = Some b"
  shows "(bestParams (bo_body rnd pollutant adsorbent targetRemoval phRange timeRange concRange i st)
            = bestParams st
          \<or> js_gt (trial_score rnd pollutant adsorbent targetRemoval phRange timeRange concRange i)
               (bestScore st))
       \<and> (\<exists>k<nat nIter.
             b = sample_params (history (bayesianOptimize rnd pollutant adsorbent targetRemoval phRange
                   timeRange concRange nIter) ! k)
           \<and> s_score (history (bayesianOptimize rnd pollutant adsorbent targetRemoval phRange timeRange
                  concRange nIter) ! k)
               = toFixed 2 (trial_score rnd pollutant adsorbent targetRemoval phRange timeRange
                   concRange k)
           \<and> (\<forall>j<nat nIter.
                 \<not> num_lt (trial_score rnd pollutant adsorbent targetRemoval phRange timeRange concRange k)
                     (trial_score rnd pollutant adsorbent targetRemoval phRange timeRange concRange j))
           \<and> (\<forall>j<k.
                 \<not> num_le (trial_score rnd pollutant adsorbent targetRemoval phRange timeRange concRange k)
                     (trial_score rnd pollutant adsorbent targetRemoval phRange timeRange concRange j))
           \<and> (\<forall>j<nat nIter.
                 \<not> num_lt (s_score (history (bayesianOptimize rnd pollutant adsorbent targetRemoval
                       phRange timeRange concRange nIter) ! k))
                     (s_score (history (bayesianOptimize rnd pollutant adsorbent targetRemoval
                       phRange timeRange concRange nIter) ! j))))"
proof -
  let ?e = "trial_entry rnd pollutant adsorbent targetRemoval phRange timeRange concRange"
  let ?s = "trial_score rnd pollutant adsorbent targetRemoval phRange timeRange concRange"
  let ?R = "bayesianOptimize rnd pollutant adsorbent targetRemoval phRange timeRange concRange nIter"
  obtain k where kn: "k < nat nIter" and k: "best_index ?s (nat nIter) = Some k"
    and b: "b = sample_params (history ?R ! k)" and hk: "history ?R ! k = ?e k"
    using best_is_history_entry [OF assms] by blast
  have h: "\<And>j. j < nat nIter \<Longrightarrow> history ?R ! j = ?e j"
    by (simp add: bayesianOptimize_run Let_def hist_run)
  have sc: "\<And>j. s_score (?e j) = toFixed 2 (?s j)" by (simp add: trial_entry_def)
  have num: "?s k \<noteq> NaN" using best_index_Num [OF k] by auto
  have mx: "\<And>j. j < nat nIter \<Longrightarrow> \<not> num_lt (?s k) (?s j)" using best_index_max [OF k] .
  have fst: "\<And>j. j < k \<Longrightarrow> \<not> num_le (?s k) (?s j)" using best_index_first [OF k] .
  have rec: "\<And>j. j < nat nIter \<Longrightarrow> \<not> num_lt (s_score (history ?R ! k)) (s_score (history ?R ! j))"
    using mx num kn by (simp add: h sc toFixed_not_lt)
  have "\<exists>k<nat nIter. b = sample_params (history ?R ! k)
      \<and> s_score (history ?R ! k) = toFixed 2 (?s k)
      \<and> (\<forall>j<nat nIter. \<not> num_lt (?s k) (?s j))
      \<and> (\<forall>j<k. \<not> num_le (?s k) (?s j))
      \<and> (\<forall>j<nat nIter. \<not> num_lt (s_score (history ?R ! k)) (s_score (history ?R ! j)))"
    using kn b hk sc mx fst rec by (intro exI [of _ k]) simp
  then show ?thesis
    using bo_body_replaces_only_if_greater by blast
qed

lemma trial_score_Num:
  assumes "MODEL_PARAMS adsorbent \<noteq> Some Inherited" and "POLLUTANT_MOD pollutant \<noteq> Some Inherited"
  shows "\<exists>v. trial_score rnd pollutant adsorbent targetRemoval phRange timeRange concRange i = Num v"
proof -
  obtain \<mu> \<sigma> where
    "trial_pred rnd pollutant adsorbent phRange timeRange concRange i = \<lparr>mean = Num \<mu>, std = Num \<sigma>\<rparr>"
    unfolding trial_pred_def using predictRemoval_range [OF assms] by blast
  then show ?thesis by (simp add: trial_score_def acquisition_def)
qed

lemma trial_score_Inherited:
  assumes "MODEL_PARAMS adsorbent = Some Inherited" and "POLLUTANT_MOD pollutant = Some q"
  shows "trial_score rnd pollutant adsorbent targetRemoval phRange timeRange concRange i = NaN"
  by (simp add: trial_score_def trial_pred_def acquisition_def
      predictRemoval_Inherited_material [OF assms])

text \<open>
  Claim C10 at a failing input. With the material identifier \<^verbatim>\<open>''constructor''\<close> every
  prediction is \<open>NaN\<close>, every score is \<open>NaN\<close>, \<^verbatim>\<open>score > bestScore\<close> is never true, and the
  returned best is null whatever the iteration count.
\<close>

theorem best_null_for_inherited_key:
  "best (bayesianOptimize rnd ''Cd(II)'' ''constructor'' targetRemoval phRange timeRange concRange nIter)
     = None"
proof -
  have "best_index (trial_score rnd ''Cd(II)'' ''constructor'' targetRemoval phRange timeRange concRange)
          (nat nIter) = None"
    unfolding best_index_None
    using trial_score_Inherited [OF MODEL_PARAMS_constructor POLLUTANT_MOD_Cd] by simp
  then show ?thesis
    by (simp add: bayesianOptimize_run Let_def run_best)
qed

text \<open>
  For identifiers that are registered or unknown (not inherited names), C10 holds: with
  at least one iteration the best is not null, and it is the history entry of the first
  trial whose acquisition score is the maximum.
\<close>

lemma best_defined_if_not_inherited:
  assumes "MODEL_PARAMS adsorbent \<noteq> Some Inherited" and "POLLUTANT_MOD pollutant \<noteq> Some Inherited"
    and "1 \<le> nIter"
  shows "\<exists>k<nat nIter.
           best (bayesianOptimize rnd pollutant adsorbent targetRemoval phRange timeRange concRange nIter)
             = Some (sample_params (history (bayesianOptimize rnd pollutant adsorbent targetRemoval
                 phRange timeRange concRange nIter) ! k))
         \<and> (\<forall>j<nat nIter.
               num_le (trial_score rnd pollutant adsorbent targetRemoval phRange timeRange concRange j)
                 (trial_score rnd pollutant adsorbent targetRemoval phRange timeRange concRange k))
         \<and> (\<forall>j<k.
               num_lt (trial_score rnd pollutant adsorbent targetRemoval phRange timeRange concRange j)
                 (trial_score rnd pollutant adsorbent targetRemoval phRange timeRange concRange k))"
proof -
  let ?e = "trial_entry rnd pollutant adsorbent targetRemoval phRange timeRange concRange"
  let ?s = "trial_score rnd pollutant adsorbent targetRemoval phRange timeRange concRange"
  let ?R = "bayesianOptimize rnd pollutant adsorbent targetRemoval phRange timeRange concRange nIter"
  have num: "\<And>j. \<exists>v. ?s j = Num v" using trial_score_Num [OF assms(1,2)] by blast
  have "0 < nat nIter" using assms(3) by simp
  moreover have "?s 0 \<noteq> NaN" using num [of 0] by auto
  ultimately have "best_index ?s (nat nIter) \<noteq> None"
    unfolding best_index_None by blast
  then obtain k where k: "best_index ?s (nat nIter) = Some k" by blast
  have kn: "k < nat nIter" using best_index_less [OF k] .
  have b: "best ?R = Some (sample_params (history ?R ! k))"
    using k kn by (simp add: bayesianOptimize_run Let_def run_best hist_run)
  have mx: "\<And>j. j < nat nIter \<Longrightarrow> num_le (?s j) (?s k)"
  proof -
    fix j assume "j < nat nIter"
    then have "\<not> num_lt (?s k) (?s j)" using best_index_max [OF k] by simp
    moreover obtain a c where "?s j = Num a" "?s k = Num c" using num by blast
    ultimately show "num_le (?s j) (?s k)" by simp
  qed
  have fs: "\<And>j. j < k \<Longrightarrow> num_lt (?s j) (?s k)"
  proof -
    fix j assume "j < k"
    then have "\<not> num_le (?s k) (?s j)" using best_index_first [OF k] by simp
    moreover obtain a c where "?s j = Num a" "?s k = Num c" using num by blast
    ultimately show "num_lt (?s j) (?s k)" by simp
  qed
  show ?thesis using kn b mx fs by (intro exI [of _ k]) simp
qed

lemma trial_score_const_draws:
  "trial_score const_draws pollutant adsorbent targetRemoval phRange timeRange concRange i
     = trial_score const_draws pollutant adsorbent targetRemoval phRange timeRange concRange 0"
  by (simp add: trial_score_def trial_pred_def trial_pH_def trial_time_def trial_conc_def
      const_draws_def)

lemma MODEL_PARAMS_MNCJG_not_Inherited: "MODEL_PARAMS ''MNCJG'' \<noteq> Some Inherited"
  by (simp add: MODEL_PARAMS_MNCJG)

lemma POLLUTANT_MOD_Cd_not_Inherited: "POLLUTANT_MOD ''Cd(II)'' \<noteq> Some Inherited"
  by (simp add: POLLUTANT_MOD_Cd)

lemma best_const_draws:
  "best (bayesianOptimize const_draws ''Cd(II)'' ''MNCJG'' 90 (2, 8) (0, 30) (1, 40) 2)
     = Some (sample_params (history
         (bayesianOptimize const_draws ''Cd(II)'' ''MNCJG'' 90 (2, 8) (0, 30) (1, 40) 2) ! 0))"
proof -
  let ?s = "trial_score const_draws ''Cd(II)'' ''MNCJG'' 90 (2, 8) (0, 30) (1, 40)"
  obtain v where v: "?s 0 = Num v"
    using trial_score_Num [OF MODEL_PARAMS_MNCJG_not_Inherited POLLUTANT_MOD_Cd_not_Inherited] by blast
  have s1: "?s (Suc 0) = Num v" using trial_score_const_draws [of _ _ _ _ _ _ "Suc 0"] v by simp
  have "best_index ?s 2 = Some 0"
    unfolding numeral_2_eq_2 by (simp add: v s1)
  then show ?thesis
    by (simp add: bayesianOptimize_run Let_def run_best hist_run)
qed

lemma exp_18: "1153 \<le> exp (18 :: real)"
proof -
  have "1153 \<le> (\<Sum>m<4. (18 :: real) ^ m / fact m)"
    by (simp add: eval_nat_numeral lessThan_Suc fact_numeral)
  also have "\<dots> \<le> exp 18" by (rule exp_taylor_lower) simp
  finally show ?thesis .
qed

lemma exp_21_4: "44 \<le> exp (21/4 :: real)"
proof -
  have "44 \<le> (\<Sum>m<4. (21/4 :: real) ^ m / fact m)"
    by (simp add: eval_nat_numeral lessThan_Suc fact_numeral)
  also have "\<dots> \<le> exp (21/4)" by (rule exp_taylor_lower) simp
  finally show ?thesis .
qed

lemma POLLUTANT_MOD_Pb: "POLLUTANT_MOD ''Pb(II)'' = Some (Own Pb_r)"
  by (simp add: POLLUTANT_MOD_def property_def POLLUTANT_MOD_own_def Pb_r_def)

lemma kinetic_MNCJG_100: "1 - 1 / 1153 \<le> kinetic_r MNCJG_r 100" "kinetic_r MNCJG_r 100 < 1"
proof -
  have "exp (- 18 :: real) \<le> 1 / 1153"
    using exp_minus_bounds(2) [of 1153 18, OF _ exp_18 order_refl] by simp
  then show "1 - 1 / 1153 \<le> kinetic_r MNCJG_r 100"
    by (simp add: kinetic_r_def MNCJG_r_def)
  show "kinetic_r MNCJG_r 100 < 1" by (simp add: kinetic_r_def)
qed

lemma phEffect_Pb_high:
  assumes "8 \<le> pH" shows "1 / (1 + 1 / 44) \<le> phEffect_r Pb_r pH"
proof -
  have "exp (- 1.5 * (pH - 4.5)) \<le> exp (- (21/4))" using assms by simp
  also have "\<dots> \<le> 1 / 44"
    using exp_minus_bounds(2) [of 44 "21/4", OF _ exp_21_4 order_refl] by simp
  finally have "1 + exp (- 1.5 * (pH - 4.5)) \<le> 1 + 1 / 44" by simp
  then have "1 / (1 + 1 / 44) \<le> 1 / (1 + exp (- 1.5 * (pH - 4.5)))"
    by (intro divide_left_mono) (simp_all add: add_pos_pos)
  then show ?thesis by (simp add: phEffect_r_def Pb_r_def)
qed

lemma mean_tie:
  assumes "8 \<le> pH" shows "mean_r MNCJG_r Pb_r pH 5 100 False = 100"
proof -
  define k where "k = kinetic_r MNCJG_r 100"
  define f where "f = phEffect_r Pb_r pH"
  define p where "p = k * f"
  have "concEffect_r MNCJG_r Pb_r 5 = 1" by (simp add: concEffect_r_def Pb_r_def)
  then have "raw_r MNCJG_r Pb_r pH 5 100 False = 99.36 * (k * f) + 5"
    unfolding raw_r_def k_def f_def by (simp add: MNCJG_r_def Pb_r_def)
  then have r: "raw_r MNCJG_r Pb_r pH 5 100 False = 99.36 * p + 5" by (simp only: p_def)
  have k: "1 - 1 / 1153 \<le> k" using kinetic_MNCJG_100(1) by (simp add: k_def)
  have f: "1 / (1 + 1 / 44) \<le> f" using phEffect_Pb_high [OF assms] by (simp add: f_def)
  have "(1 - 1 / 1153) * (1 / (1 + 1 / 44)) \<le> p"
    unfolding p_def using k f by (intro mult_mono) simp_all
  moreover have "(0.97 :: real) \<le> (1 - 1 / 1153) * (1 / (1 + 1 / 44))" by simp
  ultimately have "0.97 \<le> p" by linarith
  then have "100 \<le> raw_r MNCJG_r Pb_r pH 5 100 False" unfolding r by simp
  then have "min 100 (max 0 (raw_r MNCJG_r Pb_r pH 5 100 False)) = 100" by simp
  then show ?thesis unfolding mean_r_def by simp
qed

lemma std_tie:
  assumes "6 \<le> pH" and "real_of_int z = (pH - 6) * 50"
  shows "std_r MNCJG_r pH 100 = (200 + real_of_int z) / 100"
proof -
  define d where "d = 1 - kinetic_r MNCJG_r 100"
  have d: "0 < d" "d \<le> 1 / 1153"
    using kinetic_MNCJG_100 by (simp_all add: d_def)
  have eq: "(2 + 3 * d + 1.5 * \<bar>pH - phOpt MNCJG_r\<bar> / 3) * 100 + 1/2
          = real_of_int (200 + z) + (300 * d + 1/2)"
    using assms by (simp add: MNCJG_r_def field_simps)
  have fl: "\<lfloor>real_of_int (200 + z) + (300 * d + 1/2)\<rfloor> = 200 + z"
    using d by (simp add: floor_eq_iff)
  have "\<lfloor>(2 + 3 * d + 1.5 * \<bar>pH - phOpt MNCJG_r\<bar> / 3) * 100 + 1/2\<rfloor> = 200 + z"
    by (subst eq) (rule fl)
  then show ?thesis unfolding std_r_def d_def by simp
qed

lemma predict_tie_804:
  "predictRemoval ''MNCJG'' ''Pb(II)'' 8.04 5 100 False = \<lparr>mean = Num 100, std = Num 3.02\<rparr>"
proof -
  have "std_r MNCJG_r 8.04 100 = (200 + real_of_int 102) / 100"
    by (rule std_tie) simp_all
  then show ?thesis
    by (simp add: predictRemoval_Own [OF MODEL_PARAMS_MNCJG POLLUTANT_MOD_Pb] mean_tie)
qed

lemma predict_tie_802:
  "predictRemoval ''MNCJG'' ''Pb(II)'' 8.02 5 100 False = \<lparr>mean = Num 100, std = Num 3.01\<rparr>"
proof -
  have "std_r MNCJG_r 8.02 100 = (200 + real_of_int 101) / 100"
    by (rule std_tie) simp_all
  then show ?thesis
    by (simp add: predictRemoval_Own [OF MODEL_PARAMS_MNCJG POLLUTANT_MOD_Pb] mean_tie)
qed

lemma trial_pred_tie:
  "trial_pred tie_draws ''Pb(II)'' ''MNCJG'' (8, 9) (0, 200) (0, 10) 0
     = \<lparr>mean = Num 100, std = Num 3.02\<rparr>"
  "trial_pred tie_draws ''Pb(II)'' ''MNCJG'' (8, 9) (0, 200) (0, 10) (Suc 0)
     = \<lparr>mean = Num 100, std = Num 3.01\<rparr>"
proof -
  have "trial_pH tie_draws (8, 9) 0 = 8.04" "trial_time tie_draws (0, 200) 0 = 100"
    "trial_conc tie_draws (0, 10) 0 = 5"
    by (simp_all add: trial_pH_def trial_time_def trial_conc_def tie_draws_def)
  then show "trial_pred tie_draws ''Pb(II)'' ''MNCJG'' (8, 9) (0, 200) (0, 10) 0
     = \<lparr>mean = Num 100, std = Num 3.02\<rparr>"
    unfolding trial_pred_def by (simp only: predict_tie_804)
  have "trial_pH tie_draws (8, 9) (Suc 0) = 8.02" "trial_time tie_draws (0, 200) (Suc 0) = 100"
    "trial_conc tie_draws (0, 10) (Suc 0) = 5"
    by (simp_all add: trial_pH_def trial_time_def trial_conc_def tie_draws_def)
  then show "trial_pred tie_draws ''Pb(II)'' ''MNCJG'' (8, 9) (0, 200) (0, 10) (Suc 0)
     = \<lparr>mean = Num 100, std = Num 3.01\<rparr>"
    unfolding trial_pred_def by (simp only: predict_tie_802)
qed

lemma trial_score_tie:
  "trial_score tie_draws ''Pb(II)'' ''MNCJG'' 90 (8, 9) (0, 200) (0, 10) 0 = Num 99.698"
  "trial_score tie_draws ''Pb(II)'' ''MNCJG'' 90 (8, 9) (0, 200) (0, 10) (Suc 0) = Num 99.699"
  by (simp_all add: trial_score_def trial_pred_tie acquisition_def)

lemma trial_entry_tie:
  "trial_entry tie_draws ''Pb(II)'' ''MNCJG'' 90 (8, 9) (0, 200) (0, 10) 0
     = \<lparr>iteration = 1, s_pH = 8.04, s_time = 100, s_concentration = 5, s_predicted = Num 100,
        s_std = Num 3.02, s_score = Num 99.7\<rparr>"
  "trial_entry tie_draws ''Pb(II)'' ''MNCJG'' 90 (8, 9) (0, 200) (0, 10) (Suc 0)
     = \<lparr>iteration = 2, s_pH = 8.02, s_time = 100, s_concentration = 5, s_predicted = Num 100,
        s_std = Num 3.01, s_score = Num 99.7\<rparr>"
  by (simp_all add: trial_entry_def trial_score_tie trial_pred_tie trial_pH_def trial_time_def
      trial_conc_def tie_draws_def toFixed_real_def)

text \<open>
  C5 as the specification states it fails. Two trials: the first samples pH 8.04, the
  second pH 8.02, both time 100 and concentration 5, for \<^verbatim>\<open>MNCJG\<close> and \<^verbatim>\<open>Pb(II)\<close> with target
  90. Their acquisition scores are 99.698 and 99.699, so the second replaces the first as
  best, while both history entries record the score 99.7: the entries tie on score and the
  retained one has the higher iteration index.
\<close>

theorem tie_on_recorded_score_counterexample:
  "map iteration (history (bayesianOptimize tie_draws ''Pb(II)'' ''MNCJG'' 90 (8, 9) (0, 200) (0, 10) 2))
     = [1, 2]
   \<and> map s_score (history (bayesianOptimize tie_draws ''Pb(II)'' ''MNCJG'' 90 (8, 9) (0, 200) (0, 10) 2))
     = [Num 99.7, Num 99.7]
   \<and> map s_pH (history (bayesianOptimize tie_draws ''Pb(II)'' ''MNCJG'' 90 (8, 9) (0, 200) (0, 10) 2))
     = [8.04, 8.02]
   \<and> map_option b_pH (best (bayesianOptimize tie_draws ''Pb(II)'' ''MNCJG'' 90 (8, 9) (0, 200) (0, 10) 2))
     = Some 8.02"
proof -
  let ?s = "trial_score tie_draws ''Pb(II)'' ''MNCJG'' 90 (8, 9) (0, 200) (0, 10)"
  have bi: "best_index ?s 2 = Some (Suc 0)"
    unfolding numeral_2_eq_2 by (simp add: trial_score_tie)
  have up: "[0..<2] = [0, Suc 0]" unfolding numeral_2_eq_2 by simp
  show ?thesis
    by (simp add: bayesianOptimize_run Let_def run_best hist_run bi up trial_entry_tie
        sample_params_def)
qed

text \<open>
  The hypothesis of C5 holds for two trials with equal draws, for \<^verbatim>\<open>MNCJG\<close> and \<^verbatim>\<open>Cd(II)\<close>:
  the two acquisition scores tie, and the best is the first history entry.
\<close>

theorem best_is_first_maximal_trial_witness:
  "best (bayesianOptimize const_draws ''Cd(II)'' ''MNCJG'' 90 (2, 8) (0, 30) (1, 40) 2)
     = Some (sample_params (history
         (bayesianOptimize const_draws ''Cd(II)'' ''MNCJG'' 90 (2, 8) (0, 30) (1, 40) 2) ! 0))
   \<and> (\<exists>k<nat 2.
         sample_params (history
           (bayesianOptimize const_draws ''Cd(II)'' ''MNCJG'' 90 (2, 8) (0, 30) (1, 40) 2) ! 0)
           = sample_params (history
               (bayesianOptimize const_draws ''Cd(II)'' ''MNCJG'' 90 (2, 8) (0, 30) (1, 40) 2) ! k)
       \<and> (\<forall>j<nat 2.
             \<not> num_lt (trial_score const_draws ''Cd(II)'' ''MNCJG'' 90 (2, 8) (0, 30) (1, 40) k)
                 (trial_score const_draws ''Cd(II)'' ''MNCJG'' 90 (2, 8) (0, 30) (1, 40) j))
       \<and> (\<forall>j<k.
             \<not> num_le (trial_score const_draws ''Cd(II)'' ''MNCJG'' 90 (2, 8) (0, 30) (1, 40) k)
                 (trial_score const_draws ''Cd(II)'' ''MNCJG'' 90 (2, 8) (0, 30) (1, 40) j)))"
  using best_const_draws best_is_first_maximal_trial [OF best_const_draws]
  by blast

section \<open>Properties of \<^verbatim>\<open>computeSHAP\<close>\<close>

lemma length_insert_by [simp]: "length (insert_by cmp x xs) = Suc (length xs)"
  by (induction xs) simp_all

lemma length_Array_sort [simp]: "length (Array_sort cmp xs) = length xs"
  by (induction xs) simp_all

lemma set_insert_by [simp]: "set (insert_by cmp x xs) = insert x (set xs)"
  by (induction xs) auto

lemma set_Array_sort [simp]: "set (Array_sort cmp xs) = set xs"
  by (induction xs) simp_all

lemma find_insert_by:
  assumes "P x \<longrightarrow> (\<forall>y\<in>set xs. \<not> P y)"
  shows "find P (insert_by cmp x xs) = (if P x then Some x else find P xs)"
  using assms by (induction xs) auto

lemma find_Array_sort:
  assumes "distinct (map name xs)"
  shows "find (\<lambda>f. name f = n) (Array_sort cmp xs) = find (\<lambda>f. name f = n) xs"
  using assms
proof (induction xs)
  case Nil then show ?case by simp
next
  case (Cons x xs)
  have "name x = n \<longrightarrow> (\<forall>y\<in>set (Array_sort cmp xs). name y \<noteq> n)"
    using Cons.prems by (auto simp: image_iff)
  then show ?case using Cons by (simp add: find_insert_by)
qed

lemma computeSHAP_eq:
  "computeSHAP adsorbent pollutant pH concentration time =
     Array_sort (\<lambda>a b. absValue b - absValue a)
       (map to_feature (features adsorbent pollutant pH concentration time))"
  by (simp add: computeSHAP_def to_feature_def)

lemma names_features:
  "map name (map to_feature (features adsorbent pollutant pH concentration time))
     = [''Contact Time'', ''Initial pH'', ''Concentration'', ''Adsorbent Type'',
        ''Pollutant Type'', ''Competition'']"
  by (simp add: features_def to_feature_def Let_def)

lemma contribution_computeSHAP:
  "contribution n (computeSHAP adsorbent pollutant pH concentration time)
     = map_option (toFixed 2) (map_of (features adsorbent pollutant pH concentration time) n)"
proof -
  have d: "distinct (map name (map to_feature (features adsorbent pollutant pH concentration time)))"
    unfolding names_features by simp
  have "contribution n (computeSHAP adsorbent pollutant pH concentration time)
      = map_option val (find (\<lambda>f. name f = n)
          (map to_feature (features adsorbent pollutant pH concentration time)))"
    unfolding contribution_def computeSHAP_eq by (simp only: find_Array_sort [OF d])
  also have "\<dots> = map_option (toFixed 2) (map_of (features adsorbent pollutant pH concentration time) n)"
    by (simp add: features_def to_feature_def Let_def)
  finally show ?thesis .
qed

lemma toFixed_real_hundredths: "toFixed_real 2 (real_of_int z / 100) = real_of_int z / 100"
proof (cases "z < 0")
  case True
  have "\<lfloor>real_of_int (- z) + 1/2\<rfloor> = - z" by (simp add: floor_eq_iff)
  then have "\<lfloor>- (real_of_int z / 100) * 10\<^sup>2 + 1/2\<rfloor> = - z" by simp
  with True show ?thesis by (simp add: toFixed_real_def)
next
  case False
  have "\<lfloor>real_of_int z + 1/2\<rfloor> = z" by (simp add: floor_eq_iff)
  then have "\<lfloor>real_of_int z / 100 * 10\<^sup>2 + 1/2\<rfloor> = z" by simp
  with False show ?thesis by (simp add: toFixed_real_def)
qed

lemma mean_form:
  "mean (predictRemoval a p pH c t cp) = NaN
   \<or> (\<exists>z. mean (predictRemoval a p pH c t cp) = Num (real_of_int z / 100))"
proof (cases "MODEL_PARAMS a")
  case None
  then have "mean (predictRemoval a p pH c t cp) = Num (real_of_int 0 / 100)"
    by (simp add: predictRemoval_undefined)
  then show ?thesis by blast
next
  case (Some m)
  show ?thesis
  proof (cases "POLLUTANT_MOD p")
    case None
    then have "mean (predictRemoval a p pH c t cp) = Num (real_of_int 0 / 100)"
      by (simp add: predictRemoval_undefined)
    then show ?thesis by blast
  next
    case q: (Some q)
    show ?thesis
    proof (cases m)
      case Inherited
      with Some q show ?thesis by (simp add: predictRemoval_Inherited_material)
    next
      case (Own m')
      show ?thesis
      proof (cases q)
        case Inherited
        with Some q show ?thesis by (simp add: predictRemoval_Inherited_pollutant)
      next
        case (Own q')
        with Some q \<open>m = Own m'\<close> show ?thesis
          by (auto simp: predictRemoval_Own mean_r_def)
      qed
    qed
  qed
qed

lemma toFixed_mean_diff:
  "toFixed 2 (mean (predictRemoval a p pH c t cp) - mean (predictRemoval a' p' pH' c' t' cp'))
     = mean (predictRemoval a p pH c t cp) - mean (predictRemoval a' p' pH' c' t' cp')"
proof -
  consider "mean (predictRemoval a p pH c t cp) = NaN"
    | "mean (predictRemoval a' p' pH' c' t' cp') = NaN"
    | z z' where "mean (predictRemoval a p pH c t cp) = Num (real_of_int z / 100)"
        "mean (predictRemoval a' p' pH' c' t' cp') = Num (real_of_int z' / 100)"
    using mean_form [of a p pH c t cp] mean_form [of a' p' pH' c' t' cp'] by blast
  then show ?thesis
  proof cases
    case 1 then show ?thesis by simp
  next
    case 2 then show ?thesis by (cases "mean (predictRemoval a p pH c t cp)") simp_all
  next
    case 3
    have "real_of_int z / 100 - real_of_int z' / 100 = real_of_int (z - z') / 100" by simp
    then have "toFixed_real 2 (real_of_int z / 100 - real_of_int z' / 100)
        = real_of_int z / 100 - real_of_int z' / 100"
      by (simp only: toFixed_real_hundredths)
    with 3 show ?thesis by simp
  qed
qed

text \<open>
  Claim C1, as the code has it. For every material, pollutant and actual inputs, the
  Contact Time, Initial pH and Concentration contributions are differences against the
  prediction at pH 6, concentration 10, time 15 for the \<^emph>\<open>same\<close> material and pollutant
  (not for the reference material \<^verbatim>\<open>NC\<close> and the reference pollutant \<^verbatim>\<open>Cd(II)\<close>): the Contact
  Time contribution is the mean predicted at pH 6, concentration 10 and the actual time,
  minus that baseline, and likewise for the other two. Rounding the difference to two
  decimals changes nothing, since both means are multiples of 0.01.
\<close>

theorem contributions_against_own_baseline:
  "contribution ''Contact Time'' (computeSHAP adsorbent pollutant pH concentration time)
     = Some (mean (predictRemoval adsorbent pollutant 6 10 time False)
             - mean (predictRemoval adsorbent pollutant 6 10 15 False))
   \<and> contribution ''Initial pH'' (computeSHAP adsorbent pollutant pH concentration time)
     = Some (mean (predictRemoval adsorbent pollutant pH 10 15 False)
             - mean (predictRemoval adsorbent pollutant 6 10 15 False))
   \<and> contribution ''Concentration'' (computeSHAP adsorbent pollutant pH concentration time)
     = Some (mean (predictRemoval adsorbent pollutant 6 concentration 15 False)
             - mean (predictRemoval adsorbent pollutant 6 10 15 False))"
  by (simp add: contribution_computeSHAP features_def Let_def toFixed_mean_diff)

lemma filter_insert_by:
  "filter (\<lambda>y. absValue y = v) (insert_by (\<lambda>a b. absValue b - absValue a) x xs)
     = (if absValue x = v then x # filter (\<lambda>y. absValue y = v) xs
        else filter (\<lambda>y. absValue y = v) xs)"
proof (induction xs)
  case Nil then show ?case by simp
next
  case (Cons y ys)
  show ?case
  proof (cases "num_lt (Num 0) (absValue y - absValue x)")
    case True
    then have "absValue y \<noteq> absValue x"
      by (cases "absValue y"; cases "absValue x") auto
    with True Cons show ?thesis by auto
  next
    case False
    then show ?thesis by simp
  qed
qed

lemma filter_Array_sort:
  "filter (\<lambda>y. absValue y = v) (Array_sort (\<lambda>a b. absValue b - absValue a) xs)
     = filter (\<lambda>y. absValue y = v) xs"
  by (induction xs) (simp_all add: filter_insert_by)

lemma sorted_insert_by:
  assumes "\<forall>y\<in>set (x # xs). absValue y \<noteq> NaN"
    and "sorted_wrt (\<lambda>a b. num_le (absValue b) (absValue a)) xs"
  shows "sorted_wrt (\<lambda>a b. num_le (absValue b) (absValue a))
           (insert_by (\<lambda>a b. absValue b - absValue a) x xs)"
  using assms
proof (induction xs)
  case Nil then show ?case by simp
next
  case (Cons y ys)
  obtain vx vy where v: "absValue x = Num vx" "absValue y = Num vy"
    using Cons.prems(1) by (cases "absValue x"; cases "absValue y") auto
  have ys: "\<forall>z\<in>set ys. \<exists>vz. absValue z = Num vz \<and> vz \<le> vy"
  proof
    fix z assume z: "z \<in> set ys"
    then have "num_le (absValue z) (absValue y)" using Cons.prems(2) by simp
    then show "\<exists>vz. absValue z = Num vz \<and> vz \<le> vy"
      using v by (cases "absValue z") simp_all
  qed
  show ?case
  proof (cases "vx < vy")
    case True
    have "sorted_wrt (\<lambda>a b. num_le (absValue b) (absValue a))
            (insert_by (\<lambda>a b. absValue b - absValue a) x ys)"
      using Cons by simp
    moreover have "\<forall>z\<in>set (insert_by (\<lambda>a b. absValue b - absValue a) x ys).
        num_le (absValue z) (absValue y)"
      using True v Cons.prems(2) by auto
    ultimately show ?thesis using True v by simp
  next
    case False
    have "\<forall>z\<in>set ys. num_le (absValue z) (absValue x)"
    proof
      fix z assume "z \<in> set ys"
      then obtain vz where "absValue z = Num vz" "vz \<le> vy" using ys by blast
      with False v show "num_le (absValue z) (absValue x)" by simp
    qed
    with False v Cons.prems(2) show ?thesis by simp
  qed
qed

lemma sorted_Array_sort:
  assumes "\<forall>y\<in>set xs. absValue y \<noteq> NaN"
  shows "sorted_wrt (\<lambda>a b. num_le (absValue b) (absValue a))
           (Array_sort (\<lambda>a b. absValue b - absValue a) xs)"
  using assms
proof (induction xs)
  case Nil then show ?case by simp
next
  case (Cons x xs)
  then have "sorted_wrt (\<lambda>a b. num_le (absValue b) (absValue a))
      (Array_sort (\<lambda>a b. absValue b - absValue a) xs)" by simp
  moreover have "\<forall>y\<in>set (x # Array_sort (\<lambda>a b. absValue b - absValue a) xs). absValue y \<noteq> NaN"
    using Cons.prems by simp
  ultimately show ?case by (simp only: Array_sort.simps sorted_insert_by)
qed

lemma mean_Num_if_not_inherited:
  assumes "MODEL_PARAMS a \<noteq> Some Inherited" and "POLLUTANT_MOD p \<noteq> Some Inherited"
  shows "\<exists>v. mean (predictRemoval a p pH c t cp) = Num v"
  using predictRemoval_range [OF assms, of pH c t cp] by auto

lemma MODEL_PARAMS_NC: "MODEL_PARAMS ''NC'' = Some (Own NC_r)"
  by (simp add: MODEL_PARAMS_def property_def MODEL_PARAMS_own_def NC_r_def)

lemma features_numeric:
  assumes "MODEL_PARAMS adsorbent \<noteq> Some Inherited" and "POLLUTANT_MOD pollutant \<noteq> Some Inherited"
  shows "\<forall>f\<in>set (map to_feature (features adsorbent pollutant pH concentration time)).
           absValue f \<noteq> NaN"
proof -
  have nc: "MODEL_PARAMS ''NC'' \<noteq> Some Inherited" by (simp add: MODEL_PARAMS_NC)
  have cd: "POLLUTANT_MOD ''Cd(II)'' \<noteq> Some Inherited" by (simp add: POLLUTANT_MOD_Cd)
  obtain b where b: "mean (predictRemoval adsorbent pollutant 6 10 15 False) = Num b"
    using mean_Num_if_not_inherited [OF assms] by blast
  obtain v1 where v1: "mean (predictRemoval adsorbent pollutant 6 10 time False) = Num v1"
    using mean_Num_if_not_inherited [OF assms] by blast
  obtain v2 where v2: "mean (predictRemoval adsorbent pollutant pH 10 15 False) = Num v2"
    using mean_Num_if_not_inherited [OF assms] by blast
  obtain v3 where v3: "mean (predictRemoval adsorbent pollutant 6 concentration 15 False) = Num v3"
    using mean_Num_if_not_inherited [OF assms] by blast
  obtain v4 where v4: "mean (predictRemoval ''NC'' pollutant 6 10 15 False) = Num v4"
    using mean_Num_if_not_inherited [OF nc assms(2)] by blast
  obtain v5 where v5: "mean (predictRemoval adsorbent ''Cd(II)'' 6 10 15 False) = Num v5"
    using mean_Num_if_not_inherited [OF assms(1) cd] by blast
  show ?thesis
    by (simp add: features_def to_feature_def Let_def b v1 v2 v3 v4 v5)
qed

text \<open>
  For identifiers that are registered or unknown (not inherited names), C9 holds: six
  items, each absolute contribution at most the ones before it, and the items of equal
  absolute contribution in the order of the array literal.
\<close>

lemma computeSHAP_sorted_stable:
  assumes "MODEL_PARAMS adsorbent \<noteq> Some Inherited" and "POLLUTANT_MOD pollutant \<noteq> Some Inherited"
  shows "length (computeSHAP adsorbent pollutant pH concentration time) = 6"
    and "sorted_wrt (\<lambda>a b. num_le (absValue b) (absValue a))
           (computeSHAP adsorbent pollutant pH concentration time)"
    and "filter (\<lambda>f. absValue f = v) (computeSHAP adsorbent pollutant pH concentration time)
           = filter (\<lambda>f. absValue f = v)
               (map to_feature (features adsorbent pollutant pH concentration time))"
proof -
  show "length (computeSHAP adsorbent pollutant pH concentration time) = 6"
    by (simp add: computeSHAP_eq) (simp add: features_def Let_def)
  show "sorted_wrt (\<lambda>a b. num_le (absValue b) (absValue a))
           (computeSHAP adsorbent pollutant pH concentration time)"
    unfolding computeSHAP_eq by (rule sorted_Array_sort) (rule features_numeric [OF assms])
  show "filter (\<lambda>f. absValue f = v) (computeSHAP adsorbent pollutant pH concentration time)
           = filter (\<lambda>f. absValue f = v)
               (map to_feature (features adsorbent pollutant pH concentration time))"
    unfolding computeSHAP_eq by (rule filter_Array_sort)
qed

text \<open>
  Claim C9 at a failing input. With the material identifier \<^verbatim>\<open>''constructor''\<close> the five
  model-derived contributions are \<open>NaN\<close>; the comparator returns \<open>NaN\<close> for every pair, the
  sort leaves the array as it is, and the only item with a numeric magnitude, Competition
  with 3.2, comes last, behind five items whose absolute contribution is not a number.
\<close>

theorem computeSHAP_inherited_key_unordered:
  "map name (computeSHAP ''constructor'' ''Cd(II)'' 6 10 15)
     = [''Contact Time'', ''Initial pH'', ''Concentration'', ''Adsorbent Type'',
        ''Pollutant Type'', ''Competition'']
   \<and> map absValue (computeSHAP ''constructor'' ''Cd(II)'' 6 10 15)
     = [NaN, NaN, NaN, NaN, NaN, Num 3.2]"
proof -
  have m: "\<And>pH c t. mean (predictRemoval ''constructor'' ''Cd(II)'' pH c t False) = NaN"
    by (simp add: predictRemoval_Inherited_material [OF MODEL_PARAMS_constructor POLLUTANT_MOD_Cd])
  have "toFixed_real 2 (16 / 5) = 16 / 5" by (simp add: toFixed_real_def)
  then show ?thesis
    by (simp add: computeSHAP_def features_def Let_def m)
qed

lemma mean_r_le:
  assumes "raw_r m p pH c t cp \<le> real_of_int z / 100" and "0 \<le> z"
  shows "mean_r m p pH c t cp \<le> real_of_int z / 100"
proof -
  have "min 100 (max 0 (raw_r m p pH c t cp)) \<le> real_of_int z / 100"
    using assms by simp
  then have "mean_r m p pH c t cp \<le> real_of_int \<lfloor>real_of_int z / 100 * 100 + 1/2\<rfloor> / 100"
    unfolding mean_r_def by (rule round100_mono)
  moreover have "\<lfloor>real_of_int z + 1/2\<rfloor> = z" by (simp add: floor_eq_iff)
  ultimately show ?thesis by simp
qed

lemma mean_r_ge:
  assumes "real_of_int z / 100 \<le> raw_r m p pH c t cp" and "z \<le> 10000"
  shows "real_of_int z / 100 \<le> mean_r m p pH c t cp"
proof -
  have "real_of_int z / 100 \<le> 100" using assms(2) by simp
  then have "real_of_int z / 100 \<le> min 100 (max 0 (raw_r m p pH c t cp))"
    using assms(1) by simp
  then have "real_of_int \<lfloor>real_of_int z / 100 * 100 + 1/2\<rfloor> / 100 \<le> mean_r m p pH c t cp"
    unfolding mean_r_def by (rule round100_mono)
  moreover have "\<lfloor>real_of_int z + 1/2\<rfloor> = z" by (simp add: floor_eq_iff)
  ultimately show ?thesis by simp
qed

lemma raw_NC_Cd_6_10_15: "raw_r NC_r Cd_r 6 10 15 False \<le> 57.75"
proof -
  define k where "k = kinetic_r NC_r 15"
  define f where "f = phEffect_r Cd_r 6"
  define e where "e = concEffect_r NC_r Cd_r 10"
  define q where "q = k * f"
  define p where "p = q * e"
  have k: "0 \<le> k" "k \<le> 1" by (simp_all add: k_def kinetic_r_def NC_r_def)
  have f: "0 \<le> f" "f \<le> 1"
    by (simp_all add: f_def phEffect_r_def Cd_r_def add_pos_pos less_imp_le)
  have e: "0 \<le> e" "e \<le> 1" by (simp_all add: e_def concEffect_r_def NC_r_def Cd_r_def)
  have "q \<le> 1 * 1" unfolding q_def using k f by (intro mult_mono) simp_all
  moreover have "0 \<le> q" unfolding q_def using k f by simp
  ultimately have "p \<le> 1 * 1" unfolding p_def using e by (intro mult_mono) simp_all
  then have "57.75 * p \<le> 57.75" by simp
  moreover have "raw_r NC_r Cd_r 6 10 15 False = 57.75 * (k * f * e)"
    unfolding raw_r_def k_def f_def e_def by (simp add: NC_r_def Cd_r_def)
  then have "raw_r NC_r Cd_r 6 10 15 False = 57.75 * p" by (simp only: p_def q_def)
  ultimately show ?thesis by simp
qed

lemma raw_MNCJG_Cd_6_10_15: "60 \<le> raw_r MNCJG_r Cd_r 6 10 15 False"
proof -
  define k where "k = kinetic_r MNCJG_r 15"
  define f where "f = phEffect_r Cd_r 6"
  define e where "e = concEffect_r MNCJG_r Cd_r 10"
  define q where "q = k * f"
  define p where "p = q * e"
  have "1 + 27/10 + (27/10)\<^sup>2 / 2 \<le> exp (27/10 :: real)"
    by (rule exp_lower_Taylor_quadratic) simp
  then have "7 \<le> exp (27/10 :: real)" by (simp add: power2_eq_square)
  then have "exp (- (27/10) :: real) \<le> 1 / 7"
    using exp_minus_bounds(2) [of 7 "27/10" "exp (27/10)"] by simp
  then have k: "6 / 7 \<le> k" by (simp add: k_def kinetic_r_def MNCJG_r_def)
  have f: "9 / 10 \<le> f" using phEffect_Cd_6(1) by (simp add: f_def)
  have "1 + (- (1/25)) \<le> exp (- (1/25) :: real)" by (rule exp_ge_add_one_self)
  then have e: "24 / 25 \<le> e" by (simp add: e_def concEffect_r_def MNCJG_r_def Cd_r_def)
  have q: "6 / 7 * (9 / 10) \<le> q" unfolding q_def using k f by (intro mult_mono) simp_all
  then have "0 \<le> q" by simp
  with q e have "6 / 7 * (9 / 10) * (24 / 25) \<le> p"
    unfolding p_def by (intro mult_mono) simp_all
  then have "37 / 50 \<le> p" by simp
  moreover have "raw_r MNCJG_r Cd_r 6 10 15 False = 96.6 * (k * f * e) + 5"
    unfolding raw_r_def k_def f_def e_def by (simp add: MNCJG_r_def Cd_r_def)
  then have "raw_r MNCJG_r Cd_r 6 10 15 False = 96.6 * p + 5" by (simp only: p_def q_def)
  ultimately show ?thesis by simp
qed

lemma means_differ_MNCJG_NC:
  "mean (predictRemoval ''MNCJG'' ''Cd(II)'' 6 10 15 False)
     - mean (predictRemoval ''NC'' ''Cd(II)'' 6 10 15 False) \<noteq> Num 0"
proof -
  have "real_of_int 6000 / 100 \<le> mean_r MNCJG_r Cd_r 6 10 15 False"
    using raw_MNCJG_Cd_6_10_15 by (intro mean_r_ge) simp_all
  moreover have "mean_r NC_r Cd_r 6 10 15 False \<le> real_of_int 5775 / 100"
    using raw_NC_Cd_6_10_15 by (intro mean_r_le) simp_all
  ultimately have "mean_r MNCJG_r Cd_r 6 10 15 False - mean_r NC_r Cd_r 6 10 15 False \<noteq> 0"
    by simp
  then show ?thesis
    by (simp add: predictRemoval_Own [OF MODEL_PARAMS_MNCJG POLLUTANT_MOD_Cd]
        predictRemoval_Own [OF MODEL_PARAMS_NC POLLUTANT_MOD_Cd])
qed

text \<open>
  C1 as the specification states it fails. For \<^verbatim>\<open>MNCJG\<close> and \<^verbatim>\<open>Cd(II)\<close> at the baseline
  operating point itself (pH 6, concentration 10, time 15) the Contact Time contribution
  is \<open>0\<close>, whereas the prediction there minus the prediction of the reference material
  \<^verbatim>\<open>NC\<close> with the reference contaminant \<^verbatim>\<open>Cd(II)\<close> is not \<open>0\<close>.
\<close>

theorem baseline_is_not_reference_counterexample:
  "contribution ''Contact Time'' (computeSHAP ''MNCJG'' ''Cd(II)'' 6 10 15) = Some (Num 0)
   \<and> mean (predictRemoval ''MNCJG'' ''Cd(II)'' 6 10 15 False)
       - mean (predictRemoval ''NC'' ''Cd(II)'' 6 10 15 False) \<noteq> Num 0"
proof -
  have "toFixed_real 2 0 = 0" by (simp add: toFixed_real_def)
  then have "contribution ''Contact Time'' (computeSHAP ''MNCJG'' ''Cd(II)'' 6 10 15) = Some (Num 0)"
    by (simp add: contribution_computeSHAP features_def Let_def
        predictRemoval_Own [OF MODEL_PARAMS_MNCJG POLLUTANT_MOD_Cd])
  then show ?thesis using means_differ_MNCJG_NC by simp
qed

end
